theory Spec2Isabelle
  imports Complex_Main "HOL-Library.Sublist"
begin

section \<open>Data model of the pay-to-by-blockchain queue\<close>

text \<open>
  The queue \<open>PayToByBlockchainQueue\<close> reconciles ledger rows (table \<open>transaction\<close>) with the
  on-chain \<open>Curation\<close> events of one contract. Rows are records, tables are lists of rows,
  enums are datatypes. Database ids are natural numbers; \<open>null\<close> columns are \<open>None\<close>.
\<close>

type_synonym ident = nat

datatype TRANSACTION_STATE = pending | succeeded | failed | canceled

datatype BLOCKCHAIN_TRANSACTION_STATE = bc_pending | bc_succeeded | bc_reverted

datatype TRANSACTION_REMARK = INVALID | REMARK string

datatype TRANSACTION_PURPOSE = donation | other_purpose

datatype PAYMENT_CURRENCY = HKD | LIKE | USDT

datatype PAYMENT_PROVIDER = blockchain | stripe | other_provider

datatype GQLChain = Polygon

text \<open>
  A ledger amount is a decimal number; the database hands it out as a decimal string and
  the event synchronizer stores the result of \<open>parseFloat\<close>. It is modelled as an exact
  rational (the rounding of a JavaScript double is not modelled).
\<close>

record Transaction =
  tx_id :: ident
  tx_state :: TRANSACTION_STATE
  tx_remark :: "TRANSACTION_REMARK option"
  tx_purpose :: TRANSACTION_PURPOSE
  tx_currency :: PAYMENT_CURRENCY
  tx_provider :: PAYMENT_PROVIDER
  tx_providerTxId :: ident
  tx_senderId :: ident
  tx_recipientId :: ident
  tx_targetId :: ident
  tx_amount :: rat

record BlockchainTransaction =
  bc_id :: ident
  bc_chain :: GQLChain
  bc_txHash :: string
  bc_state :: BLOCKCHAIN_TRANSACTION_STATE
  bc_transactionId :: "ident option"

record CurationEvent =
  ce_blockchainTransactionId :: ident
  ce_contractAddress :: string
  ce_curatorAddress :: string
  ce_creatorAddress :: string
  ce_tokenAddress :: string
  ce_amount :: nat
  ce_uri :: string

record SyncRecord =
  sr_chainId :: string
  sr_contractAddress :: string
  sr_blockNumber :: int

record User =
  user_id :: ident
  user_ethAddress :: "string option"

record Article =
  article_id :: ident
  article_authorId :: ident
  article_dataHash :: string

text \<open>
  The journal makes the grouping of writes into database transactions observable: every
  committed unit (a \<open>knex.transaction()\<close> block that reached \<open>commit\<close>, or a single
  statement issued without a transaction handle) appends the list of its writes.
\<close>

datatype db_write =
    TxState ident TRANSACTION_STATE "TRANSACTION_REMARK option"
  | BcState ident BLOCKCHAIN_TRANSACTION_STATE
  | TxCreate ident TRANSACTION_STATE
  | BcCreate ident
  | BcLink ident ident
  | EventsUpsert "ident list"
  | CursorWrite int

text \<open>
  \<open>faults\<close> is the schedule of store failures: every write statement consumes the head, and
  fails when it is \<open>True\<close>. The empty schedule is a store that never fails.
\<close>

record store =
  transactions :: "Transaction list"
  blockchain_transactions :: "BlockchainTransaction list"
  blockchain_curation_events :: "CurationEvent list"
  blockchain_sync_records :: "SyncRecord list"
  users :: "User list"
  articles :: "Article list"
  journal :: "db_write list list"
  faults :: "bool list"

datatype error =
    PaymentQueueJobDataError string
  | TypeError
  | StoreError
  | ParseUnitsError
  | ParseLogError

subsection \<open>The chain client\<close>

record CurationArgs =
  arg_curator :: string
  arg_creator :: string
  arg_token :: string
  arg_uri :: string
  arg_amount :: nat

record Event =
  ev_removed :: bool
  ev_transactionHash :: string
  ev_blockNumber :: nat
  ev_args :: CurationArgs

text \<open>
  A receipt log carries its address and topics; \<open>log_parsed\<close> is what
  \<open>iface.parseLog\<close> decodes from it with the \<open>Curation\<close> ABI (\<open>None\<close> when decoding throws).
\<close>

record Log =
  log_address :: string
  log_topics :: "string list"
  log_parsed :: "CurationArgs option"

record Receipt =
  rc_status :: nat
  rc_logs :: "Log list"

record chain =
  getBlockNumber :: nat
  curationLogs :: "Event list"
  getTransactionReceipt :: "string \<Rightarrow> Receipt option"

text \<open>
  The constants of \<open>common/enums\<close> and \<open>common/environment\<close> that the queue reads are
  parameters of the model.
\<close>

record config =
  curationContractAddress :: string
  chainId :: string
  USDTContractAddress :: string
  USDTContractDecimals :: nat
  BLOCKCHAIN_SAFE_CONFIRMS :: nat

section \<open>String and unit helpers\<close>

definition lower_char :: "char \<Rightarrow> char" where
  "lower_char c =
     (let n = (of_char c :: nat) in if 65 \<le> n \<and> n \<le> 90 then char_of (n + 32) else c)"

definition toLowerCase :: "string \<Rightarrow> string" where
  "toLowerCase s = map lower_char s"

definition contractAddress :: "config \<Rightarrow> string" where
  "contractAddress cfg = toLowerCase (curationContractAddress cfg)"

definition ignoreCaseMatch :: "string \<Rightarrow> string \<Rightarrow> bool" where
  "ignoreCaseMatch a b = (toLowerCase a = toLowerCase b)"

definition isValidUri :: "string \<Rightarrow> bool" where
  "isValidUri uri = (take 7 uri = ''ipfs://'')"

text \<open>\<open>String.prototype.replace\<close> with a string pattern replaces the first occurrence only.\<close>

fun replace_first :: "string \<Rightarrow> string \<Rightarrow> string" where
  "replace_first p [] = []"
| "replace_first p (c # cs) =
     (if take (length p) (c # cs) = p then drop (length p) (c # cs)
      else c # replace_first p cs)"

definition extractCid :: "string \<Rightarrow> string" where
  "extractCid uri = replace_first ''ipfs://'' uri"

text \<open>
  \<open>toTokenBaseUnit\<close> is \<open>ethers.utils.parseUnits(amount, decimals).toString()\<close>: the amount
  scaled by \<open>10 ^ decimals\<close>; \<open>parseUnits\<close> throws when the fractional part does not fit.
\<close>

definition toTokenBaseUnit :: "rat \<Rightarrow> nat \<Rightarrow> error + int" where
  "toTokenBaseUnit a decimals =
     (let q = a * 10 ^ decimals
      in if of_int \<lfloor>q\<rfloor> = q then Inr \<lfloor>q\<rfloor> else Inl ParseUnitsError)"

text \<open>
  Modelled from the spec: \<open>fromTokenBaseUnit\<close> of \<open>common/utils\<close> is not among the sources;
  it yields the human-readable amount of a base-unit amount for the given decimals.
\<close>

definition fromTokenBaseUnit :: "nat \<Rightarrow> nat \<Rightarrow> rat" where
  "fromTokenBaseUnit n decimals = of_nat n / 10 ^ decimals"

section \<open>The store\<close>

text \<open>
  A write statement consumes one entry of the failure schedule; when that entry is \<open>True\<close>
  the statement throws and changes nothing.
\<close>

definition fault_next :: "bool list \<Rightarrow> bool" where
  "fault_next fs = (case fs of [] \<Rightarrow> False | b # _ \<Rightarrow> b)"

definition attempt :: "store \<Rightarrow> (store \<Rightarrow> 'a \<times> store) \<Rightarrow> (error + 'a) \<times> store" where
  "attempt w f =
     (if fault_next (faults w) then (Inl StoreError, w\<lparr>faults := drop 1 (faults w)\<rparr>)
      else (let (a, w') = f (w\<lparr>faults := drop 1 (faults w)\<rparr>) in (Inr a, w')))"

text \<open>A statement issued without a transaction handle commits on its own.\<close>

definition autocommit ::
  "store \<Rightarrow> ('a \<Rightarrow> db_write) \<Rightarrow> (store \<Rightarrow> 'a \<times> store) \<Rightarrow> (error + 'a) \<times> store" where
  "autocommit w wr f =
     (case attempt w f of
        (Inl e, w') \<Rightarrow> (Inl e, w')
      | (Inr a, w') \<Rightarrow> (Inr a, w'\<lparr>journal := journal w' @ [ [wr a] ]\<rparr>))"

text \<open>
  \<open>trx.rollback()\<close> restores the tables as they were when the transaction began (\<open>w\<close>); the
  failure schedule consumed meanwhile (\<open>t\<close>) is not restored. \<open>trx.commit()\<close> is itself a
  statement that may fail; when it succeeds the unit is recorded in the journal.
\<close>

definition rollback :: "store \<Rightarrow> store \<Rightarrow> store" where
  "rollback w t = w\<lparr>faults := faults t\<rparr>"

definition commit :: "store \<Rightarrow> db_write list \<Rightarrow> (error + unit) \<times> store" where
  "commit t unit_writes =
     attempt t (\<lambda>t'. ((), t'\<lparr>journal := journal t' @ [unit_writes]\<rparr>))"

definition next_id :: "ident list \<Rightarrow> ident" where
  "next_id ids = Suc (fold max ids 0)"

subsection \<open>Reads\<close>

text \<open>
  Modelled from the spec: the readers of \<open>PaymentService\<close>, \<open>UserService\<close>,
  \<open>ArticleService\<close> and \<open>AtomService\<close> are not among the sources; each returns the first row
  that satisfies its condition, or nothing.
\<close>

definition baseFindById :: "ident \<Rightarrow> store \<Rightarrow> Transaction option" where
  "baseFindById i w = find (\<lambda>t. tx_id t = i) (transactions w)"

definition findBlockchainTransactionById :: "ident \<Rightarrow> store \<Rightarrow> BlockchainTransaction option" where
  "findBlockchainTransactionById i w = find (\<lambda>b. bc_id b = i) (blockchain_transactions w)"

definition findBlockchainTransaction ::
  "GQLChain \<Rightarrow> string \<Rightarrow> store \<Rightarrow> BlockchainTransaction option" where
  "findBlockchainTransaction c h w =
     find (\<lambda>b. bc_chain b = c \<and> bc_txHash b = h) (blockchain_transactions w)"

definition userFindById :: "ident \<Rightarrow> store \<Rightarrow> User option" where
  "userFindById i w = find (\<lambda>u. user_id u = i) (users w)"

definition findByEthAddress :: "string \<Rightarrow> store \<Rightarrow> User option" where
  "findByEthAddress a w = find (\<lambda>u. user_ethAddress u = Some a) (users w)"

definition articleFindFirst :: "ident \<Rightarrow> store \<Rightarrow> Article option" where
  "articleFindFirst i w = find (\<lambda>a. article_id a = i) (articles w)"

definition articleBaseFind :: "ident \<Rightarrow> string \<Rightarrow> store \<Rightarrow> Article list" where
  "articleBaseFind author cid w =
     filter (\<lambda>a. article_authorId a = author \<and> article_dataHash a = cid) (articles w)"

definition findSyncRecord :: "config \<Rightarrow> store \<Rightarrow> SyncRecord option" where
  "findSyncRecord cfg w =
     find (\<lambda>r. sr_chainId r = chainId cfg \<and> sr_contractAddress r = contractAddress cfg)
       (blockchain_sync_records w)"

subsection \<open>Row updates\<close>

text \<open>
  Modelled from the spec: the writers of \<open>PaymentService\<close> are not among the sources. Each
  is given here as the change it makes to its table; the statements built from them follow.
  \<open>markTransactionStateAs\<close> sets the state of the ledger row with the given id, and its
  remark when one is passed; \<open>markBlockchainTransactionStateAs\<close> sets the state of a
  blockchain-transaction row; \<open>baseUpdate\<close> on \<open>blockchain_transaction\<close> sets the link of a
  row; \<open>createTransaction\<close> inserts a ledger row under a fresh id.
\<close>

definition setTransactionState ::
  "ident \<Rightarrow> TRANSACTION_STATE \<Rightarrow> TRANSACTION_REMARK option \<Rightarrow> store \<Rightarrow> store" where
  "setTransactionState i s r w =
     w\<lparr>transactions :=
         map (\<lambda>t. if tx_id t = i
                  then (case r of None \<Rightarrow> t\<lparr>tx_state := s\<rparr>
                               | Some m \<Rightarrow> t\<lparr>tx_state := s, tx_remark := Some m\<rparr>)
                  else t) (transactions w)\<rparr>"

definition setBlockchainTransactionState ::
  "ident \<Rightarrow> BLOCKCHAIN_TRANSACTION_STATE \<Rightarrow> store \<Rightarrow> store" where
  "setBlockchainTransactionState i s w =
     w\<lparr>blockchain_transactions :=
         map (\<lambda>b. if bc_id b = i then b\<lparr>bc_state := s\<rparr> else b) (blockchain_transactions w)\<rparr>"

definition setBlockchainTransactionLink :: "ident \<Rightarrow> ident \<Rightarrow> store \<Rightarrow> store" where
  "setBlockchainTransactionLink i tid w =
     w\<lparr>blockchain_transactions :=
         map (\<lambda>b. if bc_id b = i then b\<lparr>bc_transactionId := Some tid\<rparr> else b)
           (blockchain_transactions w)\<rparr>"

definition insertTransaction :: "Transaction \<Rightarrow> store \<Rightarrow> Transaction \<times> store" where
  "insertTransaction d w =
     (let t = d\<lparr>tx_id := next_id (map tx_id (transactions w))\<rparr>
      in (t, w\<lparr>transactions := transactions w @ [t]\<rparr>))"

definition insertBlockchainTransaction ::
  "GQLChain \<Rightarrow> string \<Rightarrow> BLOCKCHAIN_TRANSACTION_STATE option \<Rightarrow> store
     \<Rightarrow> BlockchainTransaction \<times> store" where
  "insertBlockchainTransaction c h st w =
     (let b = \<lparr>bc_id = next_id (map bc_id (blockchain_transactions w)), bc_chain = c,
               bc_txHash = h,
               bc_state = (case st of None \<Rightarrow> bc_pending | Some s \<Rightarrow> s),
               bc_transactionId = None\<rparr>
      in (b, w\<lparr>blockchain_transactions := blockchain_transactions w @ [b]\<rparr>))"

text \<open>
  Modelled from the spec: \<open>baseBatchCreate\<close> on \<open>blockchain_curation_event\<close> is not among the
  sources. The spec has one mirrored row per transaction hash, upserted when the hash is
  seen again; the row refers to the hash through its blockchain-transaction id.
\<close>

fun upsertCurationEvent :: "CurationEvent \<Rightarrow> CurationEvent list \<Rightarrow> CurationEvent list" where
  "upsertCurationEvent d [] = [d]"
| "upsertCurationEvent d (r # rs) =
     (if ce_blockchainTransactionId r = ce_blockchainTransactionId d then d # rs
      else r # upsertCurationEvent d rs)"

definition batchUpsertCurationEvents :: "CurationEvent list \<Rightarrow> store \<Rightarrow> store" where
  "batchUpsertCurationEvents ds w =
     w\<lparr>blockchain_curation_events := fold upsertCurationEvent ds (blockchain_curation_events w)\<rparr>"

text \<open>
  Modelled from the spec: \<open>baseUpdateOrCreate\<close> on \<open>blockchain_sync_record\<close> is not among
  the sources. It rewrites the row of this chain and contract, or inserts it.
\<close>

definition upsertSyncRecord :: "config \<Rightarrow> int \<Rightarrow> store \<Rightarrow> store" where
  "upsertSyncRecord cfg n w =
     (let mine = (\<lambda>r. sr_chainId r = chainId cfg \<and> sr_contractAddress r = contractAddress cfg);
          row = \<lparr>sr_chainId = chainId cfg, sr_contractAddress = contractAddress cfg,
                 sr_blockNumber = n\<rparr>
      in if list_ex mine (blockchain_sync_records w)
         then w\<lparr>blockchain_sync_records :=
                  map (\<lambda>r. if mine r then row else r) (blockchain_sync_records w)\<rparr>
         else w\<lparr>blockchain_sync_records := blockchain_sync_records w @ [row]\<rparr>)"

subsection \<open>Statements\<close>

text \<open>
  Modelled from the spec: the bodies of \<open>findOrCreateBlockchainTransaction\<close>,
  \<open>markTransactionStateAs\<close> and \<open>baseUpdateOrCreate\<close> are not among the sources. A
  blockchain-transaction row is created lazily the first time its hash is observed:
  \<open>findOrCreateBlockchainTransaction\<close> returns the row of the hash, inserting it first when
  there is none (with the given state, or the initial state \<open>pending\<close>). Called without a
  transaction handle, each of the three statements commits on its own.
\<close>

definition findOrCreateBlockchainTransaction ::
  "GQLChain \<Rightarrow> string \<Rightarrow> BLOCKCHAIN_TRANSACTION_STATE option \<Rightarrow> store
     \<Rightarrow> (error + BlockchainTransaction) \<times> store" where
  "findOrCreateBlockchainTransaction c h st w =
     (case findBlockchainTransaction c h w of
        Some b \<Rightarrow> (Inr b, w)
      | None \<Rightarrow> autocommit w (\<lambda>b. BcCreate (bc_id b)) (insertBlockchainTransaction c h st))"

definition markTransactionStateAs ::
  "ident \<Rightarrow> TRANSACTION_STATE \<Rightarrow> TRANSACTION_REMARK option \<Rightarrow> store \<Rightarrow> (error + unit) \<times> store" where
  "markTransactionStateAs i s r w =
     autocommit w (\<lambda>_. TxState i s r) (\<lambda>w'. ((), setTransactionState i s r w'))"

definition baseUpdateOrCreate :: "config \<Rightarrow> int \<Rightarrow> store \<Rightarrow> (error + unit) \<times> store" where
  "baseUpdateOrCreate cfg n w =
     autocommit w (\<lambda>_. CursorWrite n) (\<lambda>w'. ((), upsertSyncRecord cfg n w'))"

section \<open>The shared state-transition helper\<close>

text \<open>
  \<open>updateTxAndBlockchainTxState\<close>: both rows are written inside one transaction; a failure
  of either write or of the commit rolls the transaction back and is rethrown.
\<close>

definition updateTxAndBlockchainTxState ::
  "ident \<Rightarrow> TRANSACTION_STATE \<Rightarrow> TRANSACTION_REMARK option \<Rightarrow> ident
     \<Rightarrow> BLOCKCHAIN_TRANSACTION_STATE \<Rightarrow> store \<Rightarrow> (error + unit) \<times> store" where
  "updateTxAndBlockchainTxState txId txState txRemark blockchainTxId blockchainTxState w =
     (case attempt w (\<lambda>t. ((), setTransactionState txId txState txRemark t)) of
        (Inl e, t) \<Rightarrow> (Inl e, rollback w t)
      | (Inr _, t1) \<Rightarrow>
          (case attempt t1
                  (\<lambda>t. ((), setBlockchainTransactionState blockchainTxId blockchainTxState t)) of
             (Inl e, t) \<Rightarrow> (Inl e, rollback w t)
           | (Inr _, t2) \<Rightarrow>
               (case commit t2 [TxState txId txState txRemark,
                                BcState blockchainTxId blockchainTxState] of
                  (Inl e, t) \<Rightarrow> (Inl e, rollback w t)
                | (Inr _, t3) \<Rightarrow> (Inr (), t3))))"

definition failBothTxAndBlockchainTx :: "ident \<Rightarrow> ident \<Rightarrow> store \<Rightarrow> (error + unit) \<times> store" where
  "failBothTxAndBlockchainTx txId blockchainTxId w =
     updateTxAndBlockchainTxState txId failed None blockchainTxId bc_reverted w"

definition succeedBothTxAndBlockchainTx :: "ident \<Rightarrow> ident \<Rightarrow> store \<Rightarrow> (error + unit) \<times> store" where
  "succeedBothTxAndBlockchainTx txId blockchainTxId w =
     updateTxAndBlockchainTxState txId succeeded None blockchainTxId bc_succeeded w"

definition resetBothTxAndBlockchainTx :: "ident \<Rightarrow> ident \<Rightarrow> store \<Rightarrow> (error + unit) \<times> store" where
  "resetBothTxAndBlockchainTx txId blockchainTxId w =
     updateTxAndBlockchainTxState txId pending None blockchainTxId bc_pending w"

section \<open>Matching the logs of a receipt\<close>

definition topic :: string where
  "topic = ''0xc2e41b3d49bbccbac6ceb142bad6119608adf4f1ee1ca5cc6fc332e0ca2fc602''"

text \<open>
  The condition on a decoded log. \<open>&&\<close> evaluates from the left, so \<open>toTokenBaseUnit\<close> runs
  (and may throw) only when curator, creator and token already agree.
\<close>

definition logMatches ::
  "string \<Rightarrow> string \<Rightarrow> string \<Rightarrow> string \<Rightarrow> rat \<Rightarrow> nat \<Rightarrow> CurationArgs \<Rightarrow> error + bool" where
  "logMatches curatorAddress creatorAddress cid tokenAddress amount decimals a =
     (if ignoreCaseMatch (arg_curator a) curatorAddress
         \<and> ignoreCaseMatch (arg_creator a) creatorAddress
         \<and> ignoreCaseMatch (arg_token a) tokenAddress
      then (case toTokenBaseUnit amount decimals of
              Inl e \<Rightarrow> Inl e
            | Inr u \<Rightarrow> Inr (int (arg_amount a) = u \<and> isValidUri (arg_uri a)
                            \<and> extractCid (arg_uri a) = cid))
      else Inr False)"

definition watchedLog :: "config \<Rightarrow> Log \<Rightarrow> bool" where
  "watchedLog cfg l =
     (toLowerCase (log_address l) = contractAddress cfg
      \<and> (case log_topics l of [] \<Rightarrow> False | t # _ \<Rightarrow> t = topic))"

fun scanLogs ::
  "config \<Rightarrow> string \<Rightarrow> string \<Rightarrow> string \<Rightarrow> string \<Rightarrow> rat \<Rightarrow> nat \<Rightarrow> Log list \<Rightarrow> error + bool" where
  "scanLogs cfg cu cr cid tok am dec [] = Inr False"
| "scanLogs cfg cu cr cid tok am dec (l # ls) =
     (if watchedLog cfg l
      then (case log_parsed l of
              None \<Rightarrow> Inl ParseLogError
            | Some a \<Rightarrow>
                (case logMatches cu cr cid tok am dec a of
                   Inl e \<Rightarrow> Inl e
                 | Inr m \<Rightarrow> if m then Inr True else scanLogs cfg cu cr cid tok am dec ls))
      else scanLogs cfg cu cr cid tok am dec ls)"

text \<open>\<open>!address\<close> holds for \<open>null\<close> and for the empty string.\<close>

definition absent :: "string option \<Rightarrow> bool" where
  "absent a = (case a of None \<Rightarrow> True | Some s \<Rightarrow> s = [])"

definition containMatchedEvent ::
  "config \<Rightarrow> Log list \<Rightarrow> string option \<Rightarrow> string option \<Rightarrow> string \<Rightarrow> string \<Rightarrow> rat \<Rightarrow> nat
     \<Rightarrow> error + bool" where
  "containMatchedEvent cfg logs curatorAddress creatorAddress cid tokenAddress amount decimals =
     (if logs = [] then Inr False
      else if absent curatorAddress \<or> absent creatorAddress then Inr False
      else (case (curatorAddress, creatorAddress) of
              (Some cu, Some cr) \<Rightarrow> scanLogs cfg cu cr cid tokenAddress amount decimals logs
            | _ \<Rightarrow> Inr False))"

section \<open>The pay-to verifier\<close>

text \<open>
  What the job framework sees of one attempt: the handler returned, or it threw after
  \<open>job.discard()\<close> (no retry), or it threw without discarding (the attempt is retried).
  The mails, the notice and the cache invalidation after a successful match do not write
  the tables of this model; of them only the author lookup, which can throw, is kept.
\<close>

datatype job_outcome = Completed | Discarded error | Retryable error

definition settled :: "(error + unit) \<times> store \<Rightarrow> job_outcome \<times> store" where
  "settled r = (case r of (Inl e, w) \<Rightarrow> (Retryable e, w) | (Inr _, w) \<Rightarrow> (Completed, w))"

definition handlePayTo :: "config \<Rightarrow> chain \<Rightarrow> ident \<Rightarrow> store \<Rightarrow> job_outcome \<times> store" where
  "handlePayTo cfg ch txId w =
     (case baseFindById txId w of
        None \<Rightarrow> (Discarded (PaymentQueueJobDataError ''pay-to pending tx not found''), w)
      | Some tx \<Rightarrow>
          if tx_provider tx \<noteq> blockchain
          then (Discarded (PaymentQueueJobDataError ''wrong pay-to queue''), w)
          else
            (case findBlockchainTransactionById (tx_providerTxId tx) w of
               None \<Rightarrow>
                 (Discarded (PaymentQueueJobDataError ''blockchain transaction not found''), w)
             | Some blockchainTx \<Rightarrow>
                 (case getTransactionReceipt ch (bc_txHash blockchainTx) of
                    None \<Rightarrow>
                      (Retryable (PaymentQueueJobDataError ''blockchain transaction not mined''), w)
                  | Some txReceipt \<Rightarrow>
                      if rc_status txReceipt = 0
                      then settled (failBothTxAndBlockchainTx txId (bc_id blockchainTx) w)
                      else
                        (case (userFindById (tx_recipientId tx) w,
                               userFindById (tx_senderId tx) w,
                               articleFindFirst (tx_targetId tx) w) of
                           (Some recipient, Some sender, Some articleDb) \<Rightarrow>
                             (case containMatchedEvent cfg (rc_logs txReceipt)
                                     (user_ethAddress sender) (user_ethAddress recipient)
                                     (article_dataHash articleDb) (USDTContractAddress cfg)
                                     (tx_amount tx) (USDTContractDecimals cfg) of
                                Inl e \<Rightarrow> (Retryable e, w)
                              | Inr m \<Rightarrow>
                                  if \<not> m
                                  then settled (updateTxAndBlockchainTxState txId canceled
                                                  (Some INVALID) (bc_id blockchainTx)
                                                  bc_succeeded w)
                                  else
                                    (case succeedBothTxAndBlockchainTx txId
                                            (bc_id blockchainTx) w of
                                       (Inl e, w') \<Rightarrow> (Retryable e, w')
                                     | (Inr _, w') \<Rightarrow>
                                         (case userFindById (article_authorId articleDb) w' of
                                            None \<Rightarrow> (Retryable TypeError, w')
                                          | Some author \<Rightarrow> (Completed, w'))))
                         | _ \<Rightarrow> (Retryable TypeError, w)))))"

section \<open>The event synchronizer\<close>

text \<open>
  In the source, \<open>syncCurationEvents\<close> is one function: a loop over the events whose body
  treats an addition (\<open>!event.removed\<close>) or a removal, followed by the batch insert of the
  mirrored rows. Here the body of the loop is \<open>syncCurationEvent\<close>, its two branches are
  \<open>handleAddition\<close> and \<open>handleReorg\<close>, the loop is \<open>syncLoop\<close>, and the three
  \<open>knex.transaction()\<close> blocks of the function are \<open>cancelAndReplace\<close>, \<open>createAndLink\<close> and
  \<open>batchCreate\<close>.
\<close>

subsection \<open>Additions\<close>

definition mirrorData :: "config \<Rightarrow> BlockchainTransaction \<Rightarrow> CurationArgs \<Rightarrow> CurationEvent" where
  "mirrorData cfg blockchainTx a =
     \<lparr>ce_blockchainTransactionId = bc_id blockchainTx,
      ce_contractAddress = contractAddress cfg,
      ce_curatorAddress = toLowerCase (arg_curator a),
      ce_creatorAddress = toLowerCase (arg_creator a),
      ce_tokenAddress = toLowerCase (arg_token a),
      ce_amount = arg_amount a,
      ce_uri = arg_uri a\<rparr>"

text \<open>
  The checks that decide whether a mirrored event is a donation made on the platform
  (each failing check is a \<open>continue\<close> of the loop): token, URI, curator, creator, article.
\<close>

definition resolveDonation :: "config \<Rightarrow> CurationEvent \<Rightarrow> store \<Rightarrow> (User \<times> User \<times> Article) option" where
  "resolveDonation cfg d w =
     (if ce_tokenAddress d \<noteq> USDTContractAddress cfg then None
      else if \<not> isValidUri (ce_uri d) then None
      else
        (case findByEthAddress (ce_curatorAddress d) w of
           None \<Rightarrow> None
         | Some curatorUser \<Rightarrow>
             (case findByEthAddress (ce_creatorAddress d) w of
                None \<Rightarrow> None
              | Some creatorUser \<Rightarrow>
                  (case articleBaseFind (user_id creatorUser) (extractCid (ce_uri d)) w of
                     [] \<Rightarrow> None
                   | article # _ \<Rightarrow> Some (curatorUser, creatorUser, article)))))"

text \<open>The row handed to \<open>createTransaction\<close>; the store assigns its id.\<close>

definition donationRow ::
  "config \<Rightarrow> BlockchainTransaction \<Rightarrow> User \<Rightarrow> User \<Rightarrow> Article \<Rightarrow> CurationEvent \<Rightarrow> Transaction" where
  "donationRow cfg blockchainTx curatorUser creatorUser article d =
     \<lparr>tx_id = 0, tx_state = succeeded, tx_remark = None, tx_purpose = donation,
      tx_currency = USDT, tx_provider = blockchain, tx_providerTxId = bc_id blockchainTx,
      tx_senderId = user_id curatorUser, tx_recipientId = user_id creatorUser,
      tx_targetId = article_id article,
      tx_amount = fromTokenBaseUnit (ce_amount d) (USDTContractDecimals cfg)\<rparr>"

text \<open>The comparison of the linked ledger row with the decoded donation.\<close>

definition linkedTxValid ::
  "config \<Rightarrow> Transaction \<Rightarrow> User \<Rightarrow> User \<Rightarrow> Article \<Rightarrow> CurationEvent \<Rightarrow> error + bool" where
  "linkedTxValid cfg tx curatorUser creatorUser article d =
     (if tx_senderId tx = user_id curatorUser \<and> tx_recipientId tx = user_id creatorUser
         \<and> tx_targetId tx = article_id article
      then (case toTokenBaseUnit (tx_amount tx) (USDTContractDecimals cfg) of
              Inl e \<Rightarrow> Inl e
            | Inr u \<Rightarrow> Inr (u = int (ce_amount d)))
      else Inr False)"

text \<open>The transaction that cancels the stale ledger row and links a new one.\<close>

definition cancelAndReplace ::
  "Transaction \<Rightarrow> Transaction \<Rightarrow> BlockchainTransaction \<Rightarrow> store \<Rightarrow> (error + unit) \<times> store" where
  "cancelAndReplace tx row blockchainTx w =
     (case attempt w (\<lambda>t. ((), setTransactionState (tx_id tx) canceled (Some INVALID) t)) of
        (Inl e, t) \<Rightarrow> (Inl e, rollback w t)
      | (Inr _, t1) \<Rightarrow>
          (case attempt t1 (insertTransaction row) of
             (Inl e, t) \<Rightarrow> (Inl e, rollback w t)
           | (Inr newTx, t2) \<Rightarrow>
               (case attempt t2
                       (\<lambda>t. ((), setBlockchainTransactionLink (bc_id blockchainTx)
                                    (tx_id newTx) t)) of
                  (Inl e, t) \<Rightarrow> (Inl e, rollback w t)
                | (Inr _, t3) \<Rightarrow>
                    (case commit t3 [TxState (tx_id tx) canceled (Some INVALID),
                                     TxCreate (tx_id newTx) succeeded,
                                     BcLink (bc_id blockchainTx) (tx_id newTx)] of
                       (Inl e, t) \<Rightarrow> (Inl e, rollback w t)
                     | (Inr _, t4) \<Rightarrow> (Inr (), t4)))))"

text \<open>The transaction that creates a ledger row for a hash that had none.\<close>

definition createAndLink ::
  "Transaction \<Rightarrow> BlockchainTransaction \<Rightarrow> store \<Rightarrow> (error + unit) \<times> store" where
  "createAndLink row blockchainTx w =
     (case attempt w (insertTransaction row) of
        (Inl e, t) \<Rightarrow> (Inl e, rollback w t)
      | (Inr tx, t1) \<Rightarrow>
          (case attempt t1
                  (\<lambda>t. ((), setBlockchainTransactionLink (bc_id blockchainTx) (tx_id tx) t)) of
             (Inl e, t) \<Rightarrow> (Inl e, rollback w t)
           | (Inr _, t2) \<Rightarrow>
               (case commit t2 [TxCreate (tx_id tx) succeeded,
                                BcLink (bc_id blockchainTx) (tx_id tx)] of
                  (Inl e, t) \<Rightarrow> (Inl e, rollback w t)
                | (Inr _, t3) \<Rightarrow> (Inr (), t3))))"

text \<open>
  The reconciliation of a donation with the ledger: the linked row is confirmed, or
  superseded, or a row is created when the hash has no link.
\<close>

definition reconcile ::
  "config \<Rightarrow> BlockchainTransaction \<Rightarrow> User \<Rightarrow> User \<Rightarrow> Article \<Rightarrow> CurationEvent \<Rightarrow> store
     \<Rightarrow> (error + unit) \<times> store" where
  "reconcile cfg blockchainTx curatorUser creatorUser article d w =
     (let row = donationRow cfg blockchainTx curatorUser creatorUser article d
      in case bc_transactionId blockchainTx of
           Some tid \<Rightarrow>
             (case baseFindById tid w of
                None \<Rightarrow> (Inl TypeError, w)
              | Some tx \<Rightarrow>
                  (case linkedTxValid cfg tx curatorUser creatorUser article d of
                     Inl e \<Rightarrow> (Inl e, w)
                   | Inr v \<Rightarrow>
                       if v then markTransactionStateAs (tx_id tx) succeeded None w
                       else cancelAndReplace tx row blockchainTx w))
         | None \<Rightarrow> createAndLink row blockchainTx w)"

definition handleAddition :: "config \<Rightarrow> Event \<Rightarrow> store \<Rightarrow> (error + CurationEvent) \<times> store" where
  "handleAddition cfg event w =
     (case findOrCreateBlockchainTransaction Polygon (ev_transactionHash event)
             (Some bc_succeeded) w of
        (Inl e, w1) \<Rightarrow> (Inl e, w1)
      | (Inr blockchainTx, w1) \<Rightarrow>
          (let d = mirrorData cfg blockchainTx (ev_args event)
           in if bc_transactionId blockchainTx \<noteq> None \<and> bc_state blockchainTx = bc_succeeded
              then (Inr d, w1)
              else
                (case resolveDonation cfg d w1 of
                   None \<Rightarrow> (Inr d, w1)
                 | Some (curatorUser, creatorUser, article) \<Rightarrow>
                     (case reconcile cfg blockchainTx curatorUser creatorUser article d w1 of
                        (Inl e, w2) \<Rightarrow> (Inl e, w2)
                      | (Inr _, w2) \<Rightarrow> (Inr d, w2)))))"

subsection \<open>Removals\<close>

text \<open>
  The ledger row is read once, before any write, so the tests on its state exclude one
  another; so do the tests on the receipt.
\<close>

definition handleReorg :: "chain \<Rightarrow> Event \<Rightarrow> store \<Rightarrow> (error + unit) \<times> store" where
  "handleReorg ch event w =
     (case findOrCreateBlockchainTransaction Polygon (ev_transactionHash event) None w of
        (Inl e, w1) \<Rightarrow> (Inl e, w1)
      | (Inr blockchainTx, w1) \<Rightarrow>
          (case bc_transactionId blockchainTx of
             None \<Rightarrow> (Inr (), w1)
           | Some tid \<Rightarrow>
               (case baseFindById tid w1 of
                  None \<Rightarrow> (Inl TypeError, w1)
                | Some tx \<Rightarrow>
                    (let receipt = getTransactionReceipt ch (ev_transactionHash event)
                     in if tx_state tx = succeeded
                        then (case receipt of
                                None \<Rightarrow> resetBothTxAndBlockchainTx tid (bc_id blockchainTx) w1
                              | Some r \<Rightarrow>
                                  if rc_status r = 0
                                  then failBothTxAndBlockchainTx tid (bc_id blockchainTx) w1
                                  else (Inr (), w1))
                        else if tx_state tx = failed
                        then (case receipt of
                                None \<Rightarrow> (Inr (), w1)
                              | Some r \<Rightarrow>
                                  if rc_status r = 1
                                  then succeedBothTxAndBlockchainTx tid (bc_id blockchainTx) w1
                                  else (Inr (), w1))
                        else (Inr (), w1)))))"

subsection \<open>A batch of events\<close>

definition syncCurationEvent ::
  "config \<Rightarrow> chain \<Rightarrow> Event \<Rightarrow> store \<Rightarrow> (error + CurationEvent list) \<times> store" where
  "syncCurationEvent cfg ch event w =
     (if \<not> ev_removed event
      then (case handleAddition cfg event w of
              (Inl e, w') \<Rightarrow> (Inl e, w')
            | (Inr d, w') \<Rightarrow> (Inr [d], w'))
      else (case handleReorg ch event w of
              (Inl e, w') \<Rightarrow> (Inl e, w')
            | (Inr _, w') \<Rightarrow> (Inr [], w')))"

fun syncLoop ::
  "config \<Rightarrow> chain \<Rightarrow> Event list \<Rightarrow> CurationEvent list \<Rightarrow> store
     \<Rightarrow> (error + CurationEvent list) \<times> store" where
  "syncLoop cfg ch [] eventsToBatchCreate w = (Inr eventsToBatchCreate, w)"
| "syncLoop cfg ch (event # events) eventsToBatchCreate w =
     (case syncCurationEvent cfg ch event w of
        (Inl e, w') \<Rightarrow> (Inl e, w')
      | (Inr ds, w') \<Rightarrow> syncLoop cfg ch events (eventsToBatchCreate @ ds) w')"

definition batchCreate :: "CurationEvent list \<Rightarrow> store \<Rightarrow> (error + unit) \<times> store" where
  "batchCreate ds w =
     (case attempt w (\<lambda>t. ((), batchUpsertCurationEvents ds t)) of
        (Inl e, t) \<Rightarrow> (Inl e, rollback w t)
      | (Inr _, t1) \<Rightarrow>
          (case commit t1 [EventsUpsert (map ce_blockchainTransactionId ds)] of
             (Inl e, t) \<Rightarrow> (Inl e, rollback w t)
           | (Inr _, t2) \<Rightarrow> (Inr (), t2)))"

definition syncCurationEvents ::
  "config \<Rightarrow> chain \<Rightarrow> Event list \<Rightarrow> store \<Rightarrow> (error + nat) \<times> store" where
  "syncCurationEvents cfg ch events w =
     (case syncLoop cfg ch events [] w of
        (Inl e, w') \<Rightarrow> (Inl e, w')
      | (Inr ds, w') \<Rightarrow>
          if length ds \<ge> 0
          then (case batchCreate ds w' of
                  (Inl e, w'') \<Rightarrow> (Inl e, w'')
                | (Inr _, w'') \<Rightarrow> (Inr (length events), w''))
          else (Inr (length events), w'))"

subsection \<open>One run of the synchronizer\<close>

text \<open>
  \<open>queryFilter\<close> of the chain client: all \<open>Curation\<close> logs of the contract in block order,
  or those of an inclusive block range.
\<close>

definition queryFilter :: "chain \<Rightarrow> (int \<times> int) option \<Rightarrow> Event list" where
  "queryFilter ch blockRange =
     (case blockRange of
        None \<Rightarrow> curationLogs ch
      | Some (fromBlock, toBlock) \<Rightarrow>
          filter (\<lambda>e. fromBlock \<le> int (ev_blockNumber e) \<and> int (ev_blockNumber e) \<le> toBlock)
            (curationLogs ch))"

text \<open>
  A run reports, besides its result and the store, the block range it asked the chain
  client for (\<open>None\<close>: a query without range).
\<close>

type_synonym sync_result = "(error + unit) \<times> (int \<times> int) option \<times> store"

definition saveCursor :: "config \<Rightarrow> (int \<times> int) option \<Rightarrow> int \<Rightarrow> store \<Rightarrow> sync_result" where
  "saveCursor cfg blockRange toBlockNum w =
     (case baseUpdateOrCreate cfg toBlockNum w of (r, w') \<Rightarrow> (r, blockRange, w'))"

text \<open>\<open>events.filter((e) => e.blockNumber <= safeBlockNum)\<close>\<close>

definition withinSafeHeight :: "int \<Rightarrow> Event list \<Rightarrow> Event list" where
  "withinSafeHeight safeBlockNum events =
     filter (\<lambda>e. int (ev_blockNumber e) \<le> safeBlockNum) events"

definition syncCatchUp :: "config \<Rightarrow> chain \<Rightarrow> int \<Rightarrow> store \<Rightarrow> sync_result" where
  "syncCatchUp cfg ch safeBlockNum w =
     (let events = queryFilter ch None;
          filtered = withinSafeHeight safeBlockNum events
      in case syncCurationEvents cfg ch filtered w of
           (Inl e, w1) \<Rightarrow> (Inl e, None, w1)
         | (Inr _, w1) \<Rightarrow>
             if length events = length filtered then saveCursor cfg None safeBlockNum w1
             else (case filtered of
                     [] \<Rightarrow> (Inl TypeError, None, w1)
                   | _ # _ \<Rightarrow> saveCursor cfg None (int (ev_blockNumber (last filtered))) w1))"

definition syncIncremental :: "config \<Rightarrow> chain \<Rightarrow> int \<Rightarrow> int \<Rightarrow> store \<Rightarrow> sync_result" where
  "syncIncremental cfg ch safeBlockNum fromBlockNum w =
     (let toBlockNum = min safeBlockNum (fromBlockNum + 1999);
          events = queryFilter ch (Some (fromBlockNum, toBlockNum))
      in case syncCurationEvents cfg ch events w of
           (Inl e, w1) \<Rightarrow> (Inl e, Some (fromBlockNum, toBlockNum), w1)
         | (Inr _, w1) \<Rightarrow> saveCursor cfg (Some (fromBlockNum, toBlockNum)) toBlockNum w1)"

text \<open>
  \<open>_handleSyncCurationEvents\<close>. \<open>!fromBlockNum\<close> holds when there is no sync record and
  also when \<open>fromBlockNum\<close> is \<open>0\<close>.
\<close>

definition handleSyncCurationEvents :: "config \<Rightarrow> chain \<Rightarrow> store \<Rightarrow> sync_result" where
  "handleSyncCurationEvents cfg ch w =
     (let safeBlockNum = int (getBlockNumber ch) - int (BLOCKCHAIN_SAFE_CONFIRMS cfg);
          fromBlockNum = (case findSyncRecord cfg w of
                            None \<Rightarrow> None
                          | Some record \<Rightarrow> Some (sr_blockNumber record + 1))
      in case fromBlockNum of
           None \<Rightarrow> syncCatchUp cfg ch safeBlockNum w
         | Some f \<Rightarrow>
             if f = 0 then syncCatchUp cfg ch safeBlockNum w
             else syncIncremental cfg ch safeBlockNum f w)"

section \<open>Vocabulary of the properties\<close>

text \<open>What a reader of the tables observes.\<close>

definition ledgerState :: "store \<Rightarrow> ident \<Rightarrow> TRANSACTION_STATE option" where
  "ledgerState w i = map_option tx_state (baseFindById i w)"

definition ledgerRemark :: "store \<Rightarrow> ident \<Rightarrow> TRANSACTION_REMARK option" where
  "ledgerRemark w i = (case baseFindById i w of None \<Rightarrow> None | Some t \<Rightarrow> tx_remark t)"

definition chainState :: "store \<Rightarrow> ident \<Rightarrow> BLOCKCHAIN_TRANSACTION_STATE option" where
  "chainState w i = map_option bc_state (findBlockchainTransactionById i w)"


definition cursorOf :: "config \<Rightarrow> store \<Rightarrow> int option" where
  "cursorOf cfg w = map_option sr_blockNumber (findSyncRecord cfg w)"

text \<open>The store without its failure schedule: the tables and the journal.\<close>

definition tables :: "store \<Rightarrow> store" where
  "tables w = w\<lparr>faults := []\<rparr>"

text \<open>Whether the \<open>k\<close>-th write statement from now on fails.\<close>

definition faultAt :: "bool list \<Rightarrow> nat \<Rightarrow> bool" where
  "faultAt fs k = (k < length fs \<and> fs ! k)"

text \<open>
  The reorg-resolution table in the words of the specification: from the state of the linked
  ledger row and the status of the receipt now on the chain (\<open>None\<close>: no receipt) to the
  new states of the pair, or \<open>None\<close> when nothing changes.
\<close>

definition reorgResolution ::
  "TRANSACTION_STATE \<Rightarrow> nat option
     \<Rightarrow> (TRANSACTION_STATE \<times> BLOCKCHAIN_TRANSACTION_STATE) option" where
  "reorgResolution s receiptStatus =
     (if s = succeeded \<and> receiptStatus = None then Some (pending, bc_pending)
      else if s = succeeded \<and> receiptStatus = Some 0 then Some (failed, bc_reverted)
      else if s = failed \<and> receiptStatus = Some 1 then Some (succeeded, bc_succeeded)
      else None)"

text \<open>
  Committed units: a unit writes a terminal ledger state when one of its writes sets the
  state of a ledger row to \<open>succeeded\<close>, \<open>failed\<close> or \<open>canceled\<close>; the units of the shared
  helper consist of one ledger-state write followed by one blockchain-state write.
\<close>

definition terminal :: "TRANSACTION_STATE \<Rightarrow> bool" where
  "terminal s = (s = succeeded \<or> s = failed \<or> s = canceled)"

fun terminalWrite :: "db_write \<Rightarrow> bool" where
  "terminalWrite (TxState i s r) = terminal s"
| "terminalWrite _ = False"

fun helperUnit :: "db_write list \<Rightarrow> bool" where
  "helperUnit [TxState i s r, BcState b bs] = True"
| "helperUnit _ = False"

definition pairedUnit :: "db_write list \<Rightarrow> bool" where
  "pairedUnit u = (list_ex terminalWrite u \<longrightarrow> helperUnit u)"

text \<open>
  A helper unit of a store pairs a ledger row with a blockchain-transaction row that is
  linked to it there: the blockchain row names the ledger row, or the ledger row names the
  blockchain row as its provider transaction.
\<close>

definition linkedPair :: "store \<Rightarrow> ident \<Rightarrow> ident \<Rightarrow> bool" where
  "linkedPair w i b =
     (list_ex (\<lambda>x. bc_id x = b \<and> bc_transactionId x = Some i) (blockchain_transactions w)
      \<or> list_ex (\<lambda>t. tx_id t = i \<and> tx_providerTxId t = b) (transactions w))"

fun helperUnitOf :: "store \<Rightarrow> db_write list \<Rightarrow> bool" where
  "helperUnitOf w [TxState i s r, BcState b bs] = linkedPair w i b"
| "helperUnitOf w _ = False"

fun ledgerWrite :: "db_write \<Rightarrow> bool" where
  "ledgerWrite (TxState i s r) = True"
| "ledgerWrite (TxCreate i s) = True"
| "ledgerWrite _ = False"

definition newUnits :: "store \<Rightarrow> store \<Rightarrow> db_write list list" where
  "newUnits w w' = drop (length (journal w)) (journal w')"

fun cancelWrite :: "db_write \<Rightarrow> bool" where
  "cancelWrite (TxState i s r) = (s = canceled)"
| "cancelWrite _ = False"

fun supersedeUnit :: "db_write list \<Rightarrow> bool" where
  "supersedeUnit [TxState i s r, TxCreate n s', BcLink b n'] =
     (s = canceled \<and> r = Some INVALID \<and> s' = succeeded \<and> n' = n)"
| "supersedeUnit _ = False"



text \<open>
  The mirrored rows of a transaction hash: those that refer to the blockchain-transaction
  row of the hash (the pair of chain and hash identifies that row).
\<close>

definition mirroredRows :: "store \<Rightarrow> string \<Rightarrow> CurationEvent list" where
  "mirroredRows w h =
     (case findBlockchainTransaction Polygon h w of
        None \<Rightarrow> []
      | Some b \<Rightarrow>
          filter (\<lambda>r. ce_blockchainTransactionId r = bc_id b) (blockchain_curation_events w))"

text \<open>
  A sequence of runs of the recurring job, one per observed state of the chain. For each
  run: the cursor before, the block range requested, the cursor after.
\<close>

fun syncRuns ::
  "config \<Rightarrow> chain list \<Rightarrow> store \<Rightarrow> (int option \<times> (int \<times> int) option \<times> int option) list" where
  "syncRuns cfg [] w = []"
| "syncRuns cfg (ch # chs) w =
     (case handleSyncCurationEvents cfg ch w of
        (r, q, w') \<Rightarrow> (cursorOf cfg w, q, cursorOf cfg w') # syncRuns cfg chs w')"

definition cursorLe :: "int option \<Rightarrow> int option \<Rightarrow> bool" where
  "cursorLe a b = (case a of None \<Rightarrow> True | Some x \<Rightarrow> (case b of None \<Rightarrow> False | Some y \<Rightarrow> x \<le> y))"

text \<open>The cursor does not lie beyond the safe height of a chain of the given height.\<close>

definition cursorSafe :: "config \<Rightarrow> nat \<Rightarrow> store \<Rightarrow> bool" where
  "cursorSafe cfg height w =
     (case cursorOf cfg w of
        None \<Rightarrow> True
      | Some c \<Rightarrow> c \<le> int height - int (BLOCKCHAIN_SAFE_CONFIRMS cfg))"

text \<open>The tables after a successful run of the shared helper.\<close>

definition pairWritten ::
  "ident \<Rightarrow> TRANSACTION_STATE \<Rightarrow> TRANSACTION_REMARK option \<Rightarrow> ident
     \<Rightarrow> BLOCKCHAIN_TRANSACTION_STATE \<Rightarrow> store \<Rightarrow> store" where
  "pairWritten i s r b bs w =
     (setBlockchainTransactionState b bs (setTransactionState i s r w))
       \<lparr>journal := journal w @ [ [TxState i s r, BcState b bs] ]\<rparr>"

text \<open>The store after the transaction that supersedes a stale ledger row has committed.\<close>

definition superseded :: "Transaction \<Rightarrow> Transaction \<Rightarrow> BlockchainTransaction \<Rightarrow> store \<Rightarrow> store" where
  "superseded tx row b w =
     (let n = next_id (map tx_id (transactions w))
      in w\<lparr>transactions :=
             transactions (setTransactionState (tx_id tx) canceled (Some INVALID) w)
               @ [row\<lparr>tx_id := n\<rparr>],
           blockchain_transactions :=
             blockchain_transactions (setBlockchainTransactionLink (bc_id b) n w),
           journal := journal w @ [ [TxState (tx_id tx) canceled (Some INVALID),
                                    TxCreate n succeeded, BcLink (bc_id b) n] ],
           faults := drop 4 (faults w)\<rparr>)"

text \<open>
  The index of the blockchain-transaction table (chain, hash and id of each row, in table
  order) and the id under which a hash is found.
\<close>

definition bcIndex :: "store \<Rightarrow> (GQLChain \<times> string \<times> ident) list" where
  "bcIndex w = map (\<lambda>b. (bc_chain b, bc_txHash b, bc_id b)) (blockchain_transactions w)"

definition hashId :: "store \<Rightarrow> GQLChain \<Rightarrow> string \<Rightarrow> ident option" where
  "hashId w c h = map_option bc_id (findBlockchainTransaction c h w)"

section \<open>Example inputs\<close>

definition exConfig :: config where
  "exConfig = \<lparr>curationContractAddress = ''0xC0'', chainId = ''137'',
     USDTContractAddress = ''0xdac'', USDTContractDecimals = 6,
     BLOCKCHAIN_SAFE_CONFIRMS = 12\<rparr>"

definition exTx :: "TRANSACTION_STATE \<Rightarrow> Transaction" where
  "exTx s = \<lparr>tx_id = 7, tx_state = s, tx_remark = None, tx_purpose = donation,
     tx_currency = USDT, tx_provider = blockchain, tx_providerTxId = 3, tx_senderId = 11,
     tx_recipientId = 12, tx_targetId = 5, tx_amount = 10\<rparr>"

definition exBlockchainTx :: "BLOCKCHAIN_TRANSACTION_STATE \<Rightarrow> BlockchainTransaction" where
  "exBlockchainTx s = \<lparr>bc_id = 3, bc_chain = Polygon, bc_txHash = ''0xa1'', bc_state = s,
     bc_transactionId = Some 7\<rparr>"

definition exSender :: User where
  "exSender = \<lparr>user_id = 11, user_ethAddress = Some ''0xaa''\<rparr>"

definition exRecipient :: User where
  "exRecipient = \<lparr>user_id = 12, user_ethAddress = Some ''0xbb''\<rparr>"

definition exRecipientNoWallet :: User where
  "exRecipientNoWallet = \<lparr>user_id = 12, user_ethAddress = None\<rparr>"

definition exArticle :: Article where
  "exArticle = \<lparr>article_id = 5, article_authorId = 12, article_dataHash = ''Qm''\<rparr>"

text \<open>A store with one donation, its blockchain transaction, both users and the article.\<close>

definition exStore ::
  "TRANSACTION_STATE \<Rightarrow> BLOCKCHAIN_TRANSACTION_STATE \<Rightarrow> User \<Rightarrow> store" where
  "exStore s bs recipient =
     \<lparr>transactions = [exTx s], blockchain_transactions = [exBlockchainTx bs],
      blockchain_curation_events = [], blockchain_sync_records = [],
      users = [exSender, recipient], articles = [exArticle], journal = [], faults = []\<rparr>"

definition exArgs :: "nat \<Rightarrow> CurationArgs" where
  "exArgs n = \<lparr>arg_curator = ''0xAA'', arg_creator = ''0xBB'', arg_token = ''0xDAC'',
     arg_uri = ''ipfs://Qm'', arg_amount = n\<rparr>"

definition exLog :: "nat \<Rightarrow> Log" where
  "exLog n = \<lparr>log_address = ''0xC0'', log_topics = [topic], log_parsed = Some (exArgs n)\<rparr>"

definition exReceipt :: "nat \<Rightarrow> nat \<Rightarrow> Receipt" where
  "exReceipt st n = \<lparr>rc_status = st, rc_logs = [exLog n]\<rparr>"

text \<open>A chain on which the transaction \<open>0xa1\<close> has the given receipt.\<close>

definition exChain :: "Receipt option \<Rightarrow> chain" where
  "exChain rc = \<lparr>getBlockNumber = 1000, curationLogs = [],
     getTransactionReceipt = (\<lambda>h. if h = ''0xa1'' then rc else None)\<rparr>"

text \<open>The \<open>Curation\<close> event of transaction \<open>0xa1\<close>, as an addition or as a removal.\<close>

definition exEvent :: "bool \<Rightarrow> nat \<Rightarrow> Event" where
  "exEvent removed n = \<lparr>ev_removed = removed, ev_transactionHash = ''0xa1'',
     ev_blockNumber = 990, ev_args = exArgs n\<rparr>"


text \<open>
  The scenarios of the synchronizer: a store without rows and one whose cursor is 2000;
  events that are no donations in the platform's token; a chain of height 1000 with events
  at blocks 500, 990 and 995, and the same chain at height 5012.
\<close>

definition exEmptyStore :: store where
  "exEmptyStore = \<lparr>transactions = [], blockchain_transactions = [],
     blockchain_curation_events = [], blockchain_sync_records = [], users = [],
     articles = [], journal = [], faults = []\<rparr>"

definition exCursorStore :: "int \<Rightarrow> store" where
  "exCursorStore c = exEmptyStore\<lparr>blockchain_sync_records :=
     [\<lparr>sr_chainId = ''137'', sr_contractAddress = ''0xc0'', sr_blockNumber = c\<rparr>]\<rparr>"

definition exForeignEvent :: "string \<Rightarrow> nat \<Rightarrow> Event" where
  "exForeignEvent h n = \<lparr>ev_removed = False, ev_transactionHash = h, ev_blockNumber = n,
     ev_args = \<lparr>arg_curator = ''0xAA'', arg_creator = ''0xBB'', arg_token = ''0xEE'',
                arg_uri = ''ipfs://Qm'', arg_amount = 5\<rparr>\<rparr>"

definition exCatchUpChain :: chain where
  "exCatchUpChain = \<lparr>getBlockNumber = 1000,
     curationLogs = [exForeignEvent ''0xb1'' 500, exForeignEvent ''0xb2'' 990,
                     exForeignEvent ''0xb3'' 995],
     getTransactionReceipt = (\<lambda>h. None)\<rparr>"

definition exTallChain :: chain where
  "exTallChain = \<lparr>getBlockNumber = 5012, curationLogs = curationLogs exCatchUpChain,
     getTransactionReceipt = (\<lambda>h. None)\<rparr>"

text \<open>A batch of three addition events of two transactions.\<close>

definition exBatch :: "Event list" where
  "exBatch = [exForeignEvent ''0xb1'' 500, exForeignEvent ''0xb2'' 990,
              exForeignEvent ''0xb1'' 990]"

text \<open>A chain of height 1000 whose only events lie beyond the safe height.\<close>

definition exLateChain :: chain where
  "exLateChain = \<lparr>getBlockNumber = 1000,
     curationLogs = [exForeignEvent ''0xb2'' 990, exForeignEvent ''0xb3'' 995],
     getTransactionReceipt = (\<lambda>h. None)\<rparr>"

section \<open>Basic facts about the store and the helper\<close>

lemma faults_nil_upd: "faults w = [] \<Longrightarrow> w\<lparr>faults := []\<rparr> = w"
  by (cases w) simp

lemma attempt_no_faults:
  "faults w = [] \<Longrightarrow> attempt w f = (case f w of (a, w') \<Rightarrow> (Inr a, w'))"
  by (simp add: attempt_def fault_next_def faults_nil_upd)

lemma setTransactionState_fields [simp]:
  "blockchain_transactions (setTransactionState i s r w) = blockchain_transactions w"
  "blockchain_curation_events (setTransactionState i s r w) = blockchain_curation_events w"
  "blockchain_sync_records (setTransactionState i s r w) = blockchain_sync_records w"
  "users (setTransactionState i s r w) = users w"
  "articles (setTransactionState i s r w) = articles w"
  "journal (setTransactionState i s r w) = journal w"
  "faults (setTransactionState i s r w) = faults w"
  by (simp_all add: setTransactionState_def)

lemma setBlockchainTransactionState_fields [simp]:
  "transactions (setBlockchainTransactionState i s w) = transactions w"
  "blockchain_curation_events (setBlockchainTransactionState i s w) = blockchain_curation_events w"
  "blockchain_sync_records (setBlockchainTransactionState i s w) = blockchain_sync_records w"
  "users (setBlockchainTransactionState i s w) = users w"
  "articles (setBlockchainTransactionState i s w) = articles w"
  "journal (setBlockchainTransactionState i s w) = journal w"
  "faults (setBlockchainTransactionState i s w) = faults w"
  by (simp_all add: setBlockchainTransactionState_def)

lemma helper_no_faults:
  "faults w = [] \<Longrightarrow>
   updateTxAndBlockchainTxState i s r b bs w = (Inr (), pairWritten i s r b bs w)"
  by (simp add: updateTxAndBlockchainTxState_def attempt_no_faults commit_def pairWritten_def)

lemma find_map_keep:
  assumes "\<And>x. P (f x) = P x"
  shows "find P (map f xs) = map_option f (find P xs)"
  using assms by (induction xs) auto

lemma ledger_after_set:
  "baseFindById j (setTransactionState i s r w) =
     map_option (\<lambda>t. if tx_id t = i
                  then (case r of None \<Rightarrow> t\<lparr>tx_state := s\<rparr>
                               | Some m \<Rightarrow> t\<lparr>tx_state := s, tx_remark := Some m\<rparr>)
                  else t) (baseFindById j w)"
  unfolding baseFindById_def setTransactionState_def
  by (simp add: find_map_keep split: option.splits)

lemma chain_after_set:
  "findBlockchainTransactionById j (setBlockchainTransactionState i s w) =
     map_option (\<lambda>b. if bc_id b = i then b\<lparr>bc_state := s\<rparr> else b)
       (findBlockchainTransactionById j w)"
  unfolding findBlockchainTransactionById_def setBlockchainTransactionState_def
  by (simp add: find_map_keep)

lemma find_Some_P: "find P xs = Some x \<Longrightarrow> P x"
  by (induction xs) (auto split: if_splits)

lemma absent_no_match:
  "absent cu \<or> absent cr \<Longrightarrow> containMatchedEvent cfg logs cu cr cid tok am dec = Inr False"
  by (auto simp: containMatchedEvent_def)



lemma pairWritten_obs:
  "baseFindById j (pairWritten i s r b bs w) =
     map_option (\<lambda>t. if tx_id t = i
                  then (case r of None \<Rightarrow> t\<lparr>tx_state := s\<rparr>
                               | Some m \<Rightarrow> t\<lparr>tx_state := s, tx_remark := Some m\<rparr>)
                  else t) (baseFindById j w)"
  "findBlockchainTransactionById k (pairWritten i s r b bs w) =
     map_option (\<lambda>x. if bc_id x = b then x\<lparr>bc_state := bs\<rparr> else x)
       (findBlockchainTransactionById k w)"
  "userFindById u (pairWritten i s r b bs w) = userFindById u w"
  "articleFindFirst a (pairWritten i s r b bs w) = articleFindFirst a w"
  "faults (pairWritten i s r b bs w) = faults w"
  "journal (pairWritten i s r b bs w) = journal w @ [ [TxState i s r, BcState b bs] ]"
proof -
  have tx: "transactions (pairWritten i s r b bs w) = transactions (setTransactionState i s r w)"
    by (simp add: pairWritten_def)
  show "baseFindById j (pairWritten i s r b bs w) =
     map_option (\<lambda>t. if tx_id t = i
                  then (case r of None \<Rightarrow> t\<lparr>tx_state := s\<rparr>
                               | Some m \<Rightarrow> t\<lparr>tx_state := s, tx_remark := Some m\<rparr>)
                  else t) (baseFindById j w)"
    using ledger_after_set[of j i s r w] tx by (simp add: baseFindById_def)
  have bc: "blockchain_transactions (pairWritten i s r b bs w) =
            blockchain_transactions (setBlockchainTransactionState b bs w)"
    by (simp add: pairWritten_def setBlockchainTransactionState_def)
  show "findBlockchainTransactionById k (pairWritten i s r b bs w) =
     map_option (\<lambda>x. if bc_id x = b then x\<lparr>bc_state := bs\<rparr> else x)
       (findBlockchainTransactionById k w)"
    using chain_after_set[of k b bs w] bc by (simp add: findBlockchainTransactionById_def)
qed (simp_all add: pairWritten_def userFindById_def articleFindFirst_def)


lemma found_ids:
  "baseFindById i w = Some tx \<Longrightarrow> tx_id tx = i"
  "findBlockchainTransactionById j w = Some b \<Longrightarrow> bc_id b = j"
  using find_Some_P[of "\<lambda>t. tx_id t = i" "transactions w" tx]
    find_Some_P[of "\<lambda>x. bc_id x = j" "blockchain_transactions w" b]
  by (simp_all add: baseFindById_def findBlockchainTransactionById_def)


subsection \<open>Facts about the example inputs\<close>

lemma ex_lower:
  "toLowerCase ''0xC0'' = ''0xc0''" "toLowerCase ''0xAA'' = ''0xaa''"
  "toLowerCase ''0xBB'' = ''0xbb''" "toLowerCase ''0xDAC'' = ''0xdac''"
  "toLowerCase ''0xaa'' = ''0xaa''" "toLowerCase ''0xbb'' = ''0xbb''"
  "toLowerCase ''0xdac'' = ''0xdac''"
  by code_simp+

lemma ex_units: "toTokenBaseUnit 10 6 = Inr 10000000"
  by (simp add: toTokenBaseUnit_def)

lemma ex_lookups:
  "faults (exStore s bs r) = []"
  "baseFindById 7 (exStore s bs r) = Some (exTx s)"
  "findBlockchainTransactionById 3 (exStore s bs r) = Some (exBlockchainTx bs)"
  "findBlockchainTransaction Polygon ''0xa1'' (exStore s bs r) = Some (exBlockchainTx bs)"
  "userFindById 11 (exStore s bs r) = Some exSender"
  "articleFindFirst 5 (exStore s bs r) = Some exArticle"
  by (simp_all add: exStore_def baseFindById_def findBlockchainTransactionById_def
      findBlockchainTransaction_def userFindById_def articleFindFirst_def exTx_def
      exBlockchainTx_def exSender_def exArticle_def)

lemma ex_recipient:
  "userFindById 12 (exStore s bs exRecipient) = Some exRecipient"
  "userFindById 12 (exStore s bs exRecipientNoWallet) = Some exRecipientNoWallet"
  by (simp_all add: exStore_def userFindById_def exSender_def exRecipient_def
      exRecipientNoWallet_def)

lemma ex_fields:
  "tx_provider (exTx s) = blockchain" "tx_providerTxId (exTx s) = 3"
  "tx_recipientId (exTx s) = 12" "tx_senderId (exTx s) = 11" "tx_targetId (exTx s) = 5"
  "tx_amount (exTx s) = 10" "tx_state (exTx s) = s" "tx_id (exTx s) = 7"
  "bc_txHash (exBlockchainTx bs) = ''0xa1''" "bc_id (exBlockchainTx bs) = 3"
  "bc_transactionId (exBlockchainTx bs) = Some 7" "bc_state (exBlockchainTx bs) = bs"
  "article_authorId exArticle = 12" "article_dataHash exArticle = ''Qm''"
  "user_ethAddress exSender = Some ''0xaa''" "user_ethAddress exRecipient = Some ''0xbb''"
  "USDTContractAddress exConfig = ''0xdac''" "USDTContractDecimals exConfig = 6"
  "getTransactionReceipt (exChain rc) ''0xa1'' = rc"
  "rc_status (exReceipt st n) = st" "rc_logs (exReceipt st n) = [exLog n]"
  by (simp_all add: exTx_def exBlockchainTx_def exArticle_def exSender_def exRecipient_def
      exConfig_def exChain_def exReceipt_def)



lemma ex_event_fields:
  "ev_removed (exEvent rm n) = rm" "ev_transactionHash (exEvent rm n) = ''0xa1''"
  "ev_args (exEvent rm n) = exArgs n" "ev_blockNumber (exEvent rm n) = 990"
  by (simp_all add: exEvent_def)

subsection \<open>Finding or creating the blockchain transaction; removals\<close>

lemma find_Some_set: "find P xs = Some x \<Longrightarrow> x \<in> set xs"
  by (induction xs) (auto split: if_splits)


lemma autocommit_no_faults:
  "faults w = [] \<Longrightarrow>
   autocommit w wr f = (case f w of (a, w') \<Rightarrow> (Inr a, w'\<lparr>journal := journal w' @ [ [wr a] ]\<rparr>))"
  by (simp add: autocommit_def attempt_no_faults split: prod.splits)

lemma findOrCreate_found:
  "findBlockchainTransaction c h w = Some b \<Longrightarrow>
   findOrCreateBlockchainTransaction c h st w = (Inr b, w)"
  by (simp add: findOrCreateBlockchainTransaction_def)




lemma handleReorg_linked:
  assumes "faults w = []"
    and "findBlockchainTransaction Polygon (ev_transactionHash event) w = Some b"
    and "bc_transactionId b = Some tid" and "baseFindById tid w = Some tx"
  shows "handleReorg ch event w =
           (case reorgResolution (tx_state tx)
                   (map_option rc_status (getTransactionReceipt ch (ev_transactionHash event))) of
              None \<Rightarrow> (Inr (), w)
            | Some (s, bs) \<Rightarrow> (Inr (), pairWritten tid s None (bc_id b) bs w))"
  using assms
  by (cases "tx_state tx")
    (auto simp: handleReorg_def findOrCreate_found reorgResolution_def helper_no_faults
      resetBothTxAndBlockchainTx_def failBothTxAndBlockchainTx_def
      succeedBothTxAndBlockchainTx_def split: option.splits)

subsection \<open>Failing statements and the superseding transaction\<close>

lemma faultAt_0: "fault_next fs = faultAt fs 0"
  by (cases fs) (simp_all add: fault_next_def faultAt_def)

lemma faultAt_drop: "faultAt (drop n fs) k = faultAt fs (n + k)"
  by (auto simp: faultAt_def)

lemma attempt_cases:
  "attempt w f =
     (if faultAt (faults w) 0 then (Inl StoreError, w\<lparr>faults := drop 1 (faults w)\<rparr>)
      else (case f (w\<lparr>faults := drop 1 (faults w)\<rparr>) of (a, w') \<Rightarrow> (Inr a, w')))"
  by (simp add: attempt_def faultAt_0 split: prod.splits)

lemma tables_rollback [simp]: "tables (rollback w t) = tables w"
  by (simp add: tables_def rollback_def)




lemma find_append_one:
  "find P (xs @ [x]) =
     (case find P xs of Some y \<Rightarrow> Some y | None \<Rightarrow> if P x then Some x else None)"
  by (induction xs) auto

lemma find_fresh_None:
  "\<forall>x \<in> set xs. \<not> P x \<Longrightarrow> find P xs = None"
  by (simp add: find_None_iff)

lemma setBlockchainTransactionLink_fields [simp]:
  "transactions (setBlockchainTransactionLink i n w) = transactions w"
  "blockchain_curation_events (setBlockchainTransactionLink i n w) = blockchain_curation_events w"
  "blockchain_sync_records (setBlockchainTransactionLink i n w) = blockchain_sync_records w"
  "users (setBlockchainTransactionLink i n w) = users w"
  "articles (setBlockchainTransactionLink i n w) = articles w"
  "journal (setBlockchainTransactionLink i n w) = journal w"
  "faults (setBlockchainTransactionLink i n w) = faults w"
  by (simp_all add: setBlockchainTransactionLink_def)



lemma ex_less_4:
  "(\<exists>k<4. P (k::nat)) \<longleftrightarrow> P 0 \<or> P (Suc 0) \<or> P (Suc (Suc 0)) \<or> P (Suc (Suc (Suc 0)))"
  by (auto simp: eval_nat_numeral less_Suc_eq)


lemma ids_after_set:
  "map tx_id (transactions (setTransactionState i s r w)) = map tx_id (transactions w)"
  by (cases r) (simp_all add: setTransactionState_def comp_def cong: map_cong)

lemma cancelAndReplace_ok:
  assumes "\<not> (\<exists>k<4. faultAt (faults w) k)"
  shows "cancelAndReplace tx row b w = (Inr (), superseded tx row b w)"
proof -
  have ids: "map tx_id (transactions (setTransactionState (tx_id tx) canceled (Some INVALID)
               (w\<lparr>faults := drop (Suc 0) (faults w)\<rparr>))) = map tx_id (transactions w)"
    by (simp add: ids_after_set)
  show ?thesis
    using assms unfolding ex_less_4
    by (simp add: cancelAndReplace_def attempt_cases commit_def Let_def faultAt_drop
        insertTransaction_def superseded_def ids)
      (simp add: setTransactionState_def setBlockchainTransactionLink_def eval_nat_numeral)
qed



lemma superseded_rest:
  "journal (superseded tx row b w) =
     journal w @ [ [TxState (tx_id tx) canceled (Some INVALID),
                   TxCreate (next_id (map tx_id (transactions w))) succeeded,
                   BcLink (bc_id b) (next_id (map tx_id (transactions w)))] ]"
  "blockchain_curation_events (superseded tx row b w) = blockchain_curation_events w"
  "blockchain_sync_records (superseded tx row b w) = blockchain_sync_records w"
  "users (superseded tx row b w) = users w"
  "articles (superseded tx row b w) = articles w"
  by (simp_all add: superseded_def Let_def)

lemma addition_mismatch_run:
  assumes "\<not> ev_removed event"
    and "findBlockchainTransaction Polygon (ev_transactionHash event) w = Some b"
    and "bc_transactionId b = Some tid" and "bc_state b \<noteq> bc_succeeded"
    and "baseFindById tid w = Some tx"
    and "resolveDonation cfg (mirrorData cfg b (ev_args event)) w
           = Some (curatorUser, creatorUser, article)"
    and "linkedTxValid cfg tx curatorUser creatorUser article
           (mirrorData cfg b (ev_args event)) = Inr False"
  shows "syncCurationEvent cfg ch event w =
           (case cancelAndReplace tx
                   (donationRow cfg b curatorUser creatorUser article
                      (mirrorData cfg b (ev_args event))) b w of
              (Inl e, w') \<Rightarrow> (Inl e, w')
            | (Inr _, w') \<Rightarrow> (Inr [mirrorData cfg b (ev_args event)], w'))"
  using assms
  by (simp add: syncCurationEvent_def handleAddition_def findOrCreate_found reconcile_def
      Let_def split: prod.splits sum.splits)


lemma ex_tables:
  "transactions (exStore s bs r) = [exTx s]"
  "users (exStore s bs r) = [exSender, r]"
  "articles (exStore s bs r) = [exArticle]"
  "journal (exStore s bs r) = []"
  "blockchain_curation_events (exStore s bs r) = []"
  by (simp_all add: exStore_def)

lemma ex_mirror:
  "mirrorData exConfig (exBlockchainTx bs) (exArgs n) =
     \<lparr>ce_blockchainTransactionId = 3, ce_contractAddress = ''0xc0'',
      ce_curatorAddress = ''0xaa'', ce_creatorAddress = ''0xbb'', ce_tokenAddress = ''0xdac'',
      ce_amount = n, ce_uri = ''ipfs://Qm''\<rparr>"
  by (simp add: mirrorData_def exArgs_def ex_fields contractAddress_def exConfig_def ex_lower)

lemma ex_resolve:
  assumes "users w = [exSender, exRecipient]" "articles w = [exArticle]"
  shows "resolveDonation exConfig (mirrorData exConfig (exBlockchainTx bs) (exArgs n)) w
           = Some (exSender, exRecipient, exArticle)"
  using assms
  by (simp add: resolveDonation_def ex_mirror ex_fields isValidUri_def extractCid_def
      findByEthAddress_def articleBaseFind_def exSender_def exRecipient_def exArticle_def)

lemma ex_invalid:
  "linkedTxValid exConfig (exTx s) exSender exRecipient exArticle
     (mirrorData exConfig (exBlockchainTx bs) (exArgs 5)) = Inr False"
  by (simp add: linkedTxValid_def ex_mirror ex_fields ex_units exSender_def exRecipient_def
      exArticle_def)

subsection \<open>The units committed by each operation\<close>

lemma helper_journal:
  "journal (snd (updateTxAndBlockchainTxState i s r b bs w)) = journal w
   \<or> journal (snd (updateTxAndBlockchainTxState i s r b bs w))
        = journal w @ [ [TxState i s r, BcState b bs] ]"
  by (auto simp: updateTxAndBlockchainTxState_def attempt_cases commit_def rollback_def
      split: prod.splits sum.splits)

lemma settled_snd: "snd (settled r) = snd r"
  by (cases r) (auto simp: settled_def split: sum.splits)

lemma newUnits_same: "journal w' = journal w \<Longrightarrow> newUnits w w' = []"
  by (simp add: newUnits_def)

lemma newUnits_app: "journal w' = journal w @ us \<Longrightarrow> newUnits w w' = us"
  by (simp add: newUnits_def)

lemma payTo_journal:
  "journal (snd (handlePayTo cfg ch txId w)) = journal w
   \<or> (\<exists>tx s r bs. baseFindById txId w = Some tx
         \<and> journal (snd (handlePayTo cfg ch txId w))
             = journal w @ [ [TxState txId s r, BcState (tx_providerTxId tx) bs] ])"
proof (cases "baseFindById txId w")
  case None
  then show ?thesis by (simp add: handlePayTo_def)
next
  case (Some tx)
  note tx = this
  show ?thesis
  proof (cases "tx_provider tx = blockchain")
    case False
    with tx show ?thesis by (simp add: handlePayTo_def)
  next
    case True
    note prov = this
    show ?thesis
    proof (cases "findBlockchainTransactionById (tx_providerTxId tx) w")
      case None
      with tx prov show ?thesis by (simp add: handlePayTo_def)
    next
      case (Some b)
      note b = this
      have idb: "bc_id b = tx_providerTxId tx" using b by (auto dest: found_ids)
      show ?thesis
      proof (cases "getTransactionReceipt ch (bc_txHash b)")
        case None
        with tx prov b show ?thesis by (simp add: handlePayTo_def)
      next
        case (Some rc)
        note rc = this
        have "snd (handlePayTo cfg ch txId w) = w
            \<or> snd (handlePayTo cfg ch txId w)
                 = snd (updateTxAndBlockchainTxState txId failed None (bc_id b) bc_reverted w)
            \<or> snd (handlePayTo cfg ch txId w)
                 = snd (updateTxAndBlockchainTxState txId canceled (Some INVALID) (bc_id b)
                          bc_succeeded w)
            \<or> snd (handlePayTo cfg ch txId w)
                 = snd (updateTxAndBlockchainTxState txId succeeded None (bc_id b)
                          bc_succeeded w)"
          using tx prov b rc
          by (simp add: handlePayTo_def settled_snd failBothTxAndBlockchainTx_def
              succeedBothTxAndBlockchainTx_def split: option.splits sum.splits prod.splits)
        with helper_journal[of txId failed None "bc_id b" bc_reverted w]
          helper_journal[of txId canceled "Some INVALID" "bc_id b" bc_succeeded w]
          helper_journal[of txId succeeded None "bc_id b" bc_succeeded w]
          tx idb show ?thesis
          by (elim disjE) auto
      qed
    qed
  qed
qed


lemma findOrCreate_journal:
  "journal (snd (findOrCreateBlockchainTransaction c h st w)) = journal w
   \<or> (\<exists>i. journal (snd (findOrCreateBlockchainTransaction c h st w))
              = journal w @ [ [BcCreate i] ])"
  by (auto simp: findOrCreateBlockchainTransaction_def autocommit_def attempt_cases
      insertBlockchainTransaction_def Let_def split: option.splits)

lemma findOrCreate_created_unlinked:
  assumes "findBlockchainTransaction c h w = None"
    and "findOrCreateBlockchainTransaction c h st w = (Inr b, w1)"
  shows "bc_transactionId b = None"
  using assms
  by (auto simp: findOrCreateBlockchainTransaction_def autocommit_def attempt_cases
      insertBlockchainTransaction_def Let_def split: if_splits)

lemma reorg_journal:
  assumes "ev_removed event"
  shows "journal (snd (syncCurationEvent cfg ch event w)) = journal w
     \<or> (\<exists>i. journal (snd (syncCurationEvent cfg ch event w)) = journal w @ [ [BcCreate i] ])
     \<or> (\<exists>b tid s bs. findBlockchainTransaction Polygon (ev_transactionHash event) w = Some b
           \<and> bc_transactionId b = Some tid
           \<and> journal (snd (syncCurationEvent cfg ch event w))
               = journal w @ [ [TxState tid s None, BcState (bc_id b) bs] ])"
proof -
  have snd_eq: "snd (syncCurationEvent cfg ch event w) = snd (handleReorg ch event w)"
    using assms by (simp add: syncCurationEvent_def split: prod.splits sum.splits)
  show ?thesis
  proof (cases "findBlockchainTransaction Polygon (ev_transactionHash event) w")
    case None
    have "snd (handleReorg ch event w)
            = snd (findOrCreateBlockchainTransaction Polygon (ev_transactionHash event) None w)"
      using findOrCreate_created_unlinked[OF None]
      by (auto simp: handleReorg_def split: prod.splits sum.splits option.splits)
    with findOrCreate_journal[of Polygon "ev_transactionHash event" None w] snd_eq
    show ?thesis by auto
  next
    case (Some b)
    note b = this
    show ?thesis
    proof (cases "bc_transactionId b")
      case None
      with b snd_eq show ?thesis by (simp add: handleReorg_def findOrCreate_found)
    next
      case (Some tid)
      have "snd (handleReorg ch event w) = w
          \<or> snd (handleReorg ch event w)
               = snd (updateTxAndBlockchainTxState tid pending None (bc_id b) bc_pending w)
          \<or> snd (handleReorg ch event w)
               = snd (updateTxAndBlockchainTxState tid failed None (bc_id b) bc_reverted w)
          \<or> snd (handleReorg ch event w)
               = snd (updateTxAndBlockchainTxState tid succeeded None (bc_id b) bc_succeeded w)"
        using b Some
        by (simp add: handleReorg_def findOrCreate_found resetBothTxAndBlockchainTx_def
            failBothTxAndBlockchainTx_def succeedBothTxAndBlockchainTx_def Let_def
            split: option.splits)
      with helper_journal[of tid pending None "bc_id b" bc_pending w]
        helper_journal[of tid failed None "bc_id b" bc_reverted w]
        helper_journal[of tid succeeded None "bc_id b" bc_succeeded w]
        b Some snd_eq show ?thesis
        by (elim disjE) auto
    qed
  qed
qed

lemma reconcile_journal:
  "\<exists>us. journal (snd (reconcile cfg b cu cr art d w)) = journal w @ us
        \<and> list_all (\<lambda>u. list_ex cancelWrite u \<longrightarrow> supersedeUnit u) us"
proof -
  have mark: "\<And>i. journal (snd (markTransactionStateAs i succeeded None w)) = journal w
      \<or> journal (snd (markTransactionStateAs i succeeded None w))
           = journal w @ [ [TxState i succeeded None] ]"
    by (auto simp: markTransactionStateAs_def autocommit_def attempt_cases)
  have repl: "\<And>tx row. journal (snd (cancelAndReplace tx row b w)) = journal w
      \<or> (\<exists>n. journal (snd (cancelAndReplace tx row b w))
             = journal w @ [ [TxState (tx_id tx) canceled (Some INVALID), TxCreate n succeeded,
                             BcLink (bc_id b) n] ])"
    by (auto simp: cancelAndReplace_def attempt_cases commit_def rollback_def
        insertTransaction_def Let_def split: prod.splits sum.splits)
  have crea: "\<And>row. journal (snd (createAndLink row b w)) = journal w
      \<or> (\<exists>n. journal (snd (createAndLink row b w))
             = journal w @ [ [TxCreate n succeeded, BcLink (bc_id b) n] ])"
    by (auto simp: createAndLink_def attempt_cases commit_def rollback_def
        insertTransaction_def Let_def split: prod.splits sum.splits)
  let ?row = "donationRow cfg b cu cr art d"
  show ?thesis
  proof (cases "bc_transactionId b")
    case None
    with crea[of ?row] show ?thesis
      by (auto simp: reconcile_def Let_def)
  next
    case (Some tid)
    show ?thesis
    proof (cases "baseFindById tid w")
      case None
      with Some show ?thesis by (simp add: reconcile_def Let_def)
    next
      case (Some tx)
      note tx = this
      show ?thesis
      proof (cases "linkedTxValid cfg tx cu cr art d")
        case (Inl e)
        with tx \<open>bc_transactionId b = Some tid\<close> show ?thesis
          by (simp add: reconcile_def Let_def)
      next
        case (Inr v)
        with tx \<open>bc_transactionId b = Some tid\<close> mark[of "tx_id tx"] repl[of tx ?row]
        show ?thesis
          by (cases v) (auto simp: reconcile_def Let_def)
      qed
    qed
  qed
qed

lemma addition_journal:
  assumes "\<not> ev_removed event"
  shows "\<exists>us. journal (snd (syncCurationEvent cfg ch event w)) = journal w @ us
        \<and> list_all (\<lambda>u. list_ex cancelWrite u \<longrightarrow> supersedeUnit u) us"
proof -
  let ?Q = "\<lambda>u. list_ex cancelWrite u \<longrightarrow> supersedeUnit u"
  let ?foc = "findOrCreateBlockchainTransaction Polygon (ev_transactionHash event)
                (Some bc_succeeded) w"
  have snd_eq: "snd (syncCurationEvent cfg ch event w) = snd (handleAddition cfg event w)"
    using assms by (simp add: syncCurationEvent_def split: prod.splits sum.splits)
  obtain us0 where us0: "journal (snd ?foc) = journal w @ us0" "list_all ?Q us0"
    using findOrCreate_journal[of Polygon "ev_transactionHash event" "Some bc_succeeded" w]
    by auto
  have "snd (handleAddition cfg event w) = snd ?foc
      \<or> (\<exists>b cu cr art d. snd (handleAddition cfg event w)
             = snd (reconcile cfg b cu cr art d (snd ?foc)))"
  proof (cases ?foc)
    case (Pair r0 w1)
    show ?thesis
    proof (cases r0)
      case (Inl e)
      with Pair show ?thesis by (simp add: handleAddition_def)
    next
      case (Inr b)
      let ?d = "mirrorData cfg b (ev_args event)"
      show ?thesis
      proof (cases "resolveDonation cfg ?d w1")
        case None
        with Pair Inr show ?thesis by (simp add: handleAddition_def Let_def)
      next
        case (Some p)
        obtain cu cr art where p: "p = (cu, cr, art)" by (cases p)
        have "snd (handleAddition cfg event w) = w1
            \<or> snd (handleAddition cfg event w) = snd (reconcile cfg b cu cr art ?d w1)"
          using Pair Inr Some p
          by (cases "reconcile cfg b cu cr art ?d w1")
            (auto simp: handleAddition_def Let_def split: sum.splits)
        then show ?thesis
        proof
          assume "snd (handleAddition cfg event w) = w1"
          with Pair show ?thesis by simp
        next
          assume "snd (handleAddition cfg event w) = snd (reconcile cfg b cu cr art ?d w1)"
          with Pair have "\<exists>b cu cr art d. snd (handleAddition cfg event w)
             = snd (reconcile cfg b cu cr art d (snd ?foc))"
            by (intro exI[of _ b] exI[of _ cu] exI[of _ cr] exI[of _ art] exI[of _ ?d]) simp
          then show ?thesis ..
        qed
      qed
    qed
  qed
  then show ?thesis
  proof
    assume "snd (handleAddition cfg event w) = snd ?foc"
    with us0 snd_eq show ?thesis by auto
  next
    assume "\<exists>b cu cr art d. snd (handleAddition cfg event w)
             = snd (reconcile cfg b cu cr art d (snd ?foc))"
    then obtain b cu cr art d where
      r: "snd (handleAddition cfg event w) = snd (reconcile cfg b cu cr art d (snd ?foc))"
      by blast
    obtain us1 where us1:
      "journal (snd (reconcile cfg b cu cr art d (snd ?foc))) = journal (snd ?foc) @ us1"
      "list_all ?Q us1"
      using reconcile_journal[of cfg b cu cr art d "snd ?foc"] by blast
    from r us0 us1 snd_eq
    have "journal (snd (syncCurationEvent cfg ch event w)) = journal w @ (us0 @ us1)"
      "list_all ?Q (us0 @ us1)"
      by simp_all
    then show ?thesis by blast
  qed
qed

lemma set_find_linked:
  "baseFindById i w = Some tx \<Longrightarrow> linkedPair w i (tx_providerTxId tx)"
  "findBlockchainTransaction c h w = Some b \<Longrightarrow> bc_transactionId b = Some tid \<Longrightarrow>
     linkedPair w tid (bc_id b)"
proof -
  assume a: "baseFindById i w = Some tx"
  then have "tx \<in> set (transactions w)" "tx_id tx = i"
    using found_ids(1)[OF a] by (simp_all add: baseFindById_def find_Some_set)
  then show "linkedPair w i (tx_providerTxId tx)"
    by (auto simp: linkedPair_def list_ex_iff)
next
  assume a: "findBlockchainTransaction c h w = Some b" "bc_transactionId b = Some tid"
  then have "b \<in> set (blockchain_transactions w)"
    by (simp add: findBlockchainTransaction_def find_Some_set)
  with a(2) show "linkedPair w tid (bc_id b)"
    by (auto simp: linkedPair_def list_ex_iff)
qed

lemma payTo_units:
  "list_all (helperUnitOf w) (newUnits w (snd (handlePayTo cfg ch txId w)))"
proof -
  from payTo_journal[of cfg ch txId w] show ?thesis
  proof
    assume "journal (snd (handlePayTo cfg ch txId w)) = journal w"
    then show ?thesis by (simp add: newUnits_same)
  next
    assume "\<exists>tx s r bs. baseFindById txId w = Some tx
         \<and> journal (snd (handlePayTo cfg ch txId w))
             = journal w @ [ [TxState txId s r, BcState (tx_providerTxId tx) bs] ]"
    then obtain tx s r bs where tx: "baseFindById txId w = Some tx"
      and j: "journal (snd (handlePayTo cfg ch txId w))
             = journal w @ [ [TxState txId s r, BcState (tx_providerTxId tx) bs] ]"
      by blast
    show ?thesis
      unfolding newUnits_app[OF j] using set_find_linked(1)[OF tx] by simp
  qed
qed

lemma removal_units:
  assumes "ev_removed event"
  shows "list_all (\<lambda>u. helperUnitOf w u \<or> \<not> list_ex ledgerWrite u)
          (newUnits w (snd (syncCurationEvent cfg ch event w)))"
proof -
  from reorg_journal[OF assms, of cfg ch w]
  consider (same) "journal (snd (syncCurationEvent cfg ch event w)) = journal w"
    | (created) i where
        "journal (snd (syncCurationEvent cfg ch event w)) = journal w @ [ [BcCreate i] ]"
    | (paired) b tid s bs where
        "findBlockchainTransaction Polygon (ev_transactionHash event) w = Some b"
        "bc_transactionId b = Some tid"
        "journal (snd (syncCurationEvent cfg ch event w))
               = journal w @ [ [TxState tid s None, BcState (bc_id b) bs] ]"
    by blast
  then show ?thesis
  proof cases
    case same
    then show ?thesis by (simp add: newUnits_same)
  next
    case created
    show ?thesis unfolding newUnits_app[OF created] by simp
  next
    case paired
    show ?thesis
      unfolding newUnits_app[OF paired(3)] using set_find_linked(2)[OF paired(1,2)] by simp
  qed
qed

lemma addition_units:
  assumes "\<not> ev_removed event"
  shows "list_all (\<lambda>u. list_ex cancelWrite u \<longrightarrow> supersedeUnit u)
          (newUnits w (snd (syncCurationEvent cfg ch event w)))"
proof -
  from addition_journal[OF assms, of cfg ch w] obtain us where
    us: "journal (snd (syncCurationEvent cfg ch event w)) = journal w @ us"
    "list_all (\<lambda>u. list_ex cancelWrite u \<longrightarrow> supersedeUnit u) us"
    by blast
  show ?thesis unfolding newUnits_app[OF us(1)] by (rule us(2))
qed

lemma ex_units_verifier:
  "newUnits (exStore pending bc_pending exRecipient)
      (snd (handlePayTo exConfig (exChain (Some (exReceipt 0 5))) 7
              (exStore pending bc_pending exRecipient)))
      = [ [TxState 7 failed None, BcState 3 bc_reverted] ]"
  by (simp add: handlePayTo_def ex_lookups ex_fields settled_def failBothTxAndBlockchainTx_def
      helper_no_faults newUnits_def pairWritten_obs ex_tables)

lemma ex_units_removal:
  "newUnits (exStore succeeded bc_succeeded exRecipient)
      (snd (syncCurationEvent exConfig (exChain None) (exEvent True 5)
              (exStore succeeded bc_succeeded exRecipient)))
      = [ [TxState 7 pending None, BcState 3 bc_pending] ]"
proof -
  have "handleReorg (exChain None) (exEvent True 5) (exStore succeeded bc_succeeded exRecipient)
      = (Inr (), pairWritten 7 pending None 3 bc_pending
                   (exStore succeeded bc_succeeded exRecipient))"
    using handleReorg_linked[where event = "exEvent True 5" and ch = "exChain None"
        and w = "exStore succeeded bc_succeeded exRecipient"
        and b = "exBlockchainTx bc_succeeded" and tid = 7 and tx = "exTx succeeded"]
    by (simp add: ex_lookups ex_fields ex_event_fields reorgResolution_def)
  then show ?thesis
    by (simp add: syncCurationEvent_def ex_event_fields newUnits_def pairWritten_obs ex_tables)
qed

lemma ex_units_supersede:
  "newUnits (exStore pending bc_pending exRecipient)
      (snd (syncCurationEvent exConfig (exChain None) (exEvent False 5)
              (exStore pending bc_pending exRecipient)))
      = [ [TxState 7 canceled (Some INVALID), TxCreate 8 succeeded, BcLink 3 8] ]"
proof -
  let ?w = "exStore pending bc_pending exRecipient"
  let ?row = "donationRow exConfig (exBlockchainTx bc_pending) exSender exRecipient exArticle
                (mirrorData exConfig (exBlockchainTx bc_pending) (exArgs 5))"
  have nf: "\<not> (\<exists>k<4. faultAt (faults ?w) k)" by (simp add: ex_lookups faultAt_def)
  have n: "next_id (map tx_id (transactions ?w)) = 8"
    by (simp add: ex_tables ex_fields next_id_def)
  have "syncCurationEvent exConfig (exChain None) (exEvent False 5) ?w
      = (Inr [mirrorData exConfig (exBlockchainTx bc_pending) (exArgs 5)],
         superseded (exTx pending) ?row (exBlockchainTx bc_pending) ?w)"
    using addition_mismatch_run[where event = "exEvent False 5" and w = ?w
        and b = "exBlockchainTx bc_pending" and tid = 7 and tx = "exTx pending"
        and cfg = exConfig and curatorUser = exSender and creatorUser = exRecipient
        and article = exArticle and ch = "exChain None"]
      ex_resolve[OF ex_tables(2) ex_tables(3), where bs = bc_pending and n = 5]
    by (simp add: ex_event_fields ex_lookups ex_fields ex_invalid cancelAndReplace_ok[OF nf])
  then show ?thesis
    using n by (simp add: newUnits_def superseded_rest ex_tables ex_fields)
qed

lemma ex_units_confirm:
  "newUnits (exStore pending bc_pending exRecipient)
     (snd (syncCurationEvent exConfig (exChain None) (exEvent False 10000000)
             (exStore pending bc_pending exRecipient)))
     = [ [TxState 7 succeeded None] ]"
proof -
  let ?w = "exStore pending bc_pending exRecipient"
  have v: "linkedTxValid exConfig (exTx pending) exSender exRecipient exArticle
     (mirrorData exConfig (exBlockchainTx bc_pending) (exArgs 10000000)) = Inr True"
    by (simp add: linkedTxValid_def ex_mirror ex_fields ex_units exSender_def exRecipient_def
      exArticle_def)
  show ?thesis
    using ex_resolve[OF ex_tables(2) ex_tables(3), where bs = bc_pending and n = 10000000]
    by (simp add: syncCurationEvent_def handleAddition_def findOrCreate_found ex_lookups
        ex_event_fields ex_fields reconcile_def v markTransactionStateAs_def
        autocommit_no_faults newUnits_def ex_tables Let_def)
qed

subsection \<open>The sync record\<close>

lemma upsertSyncRecord_find:
  "findSyncRecord cfg (upsertSyncRecord cfg n w) =
     Some \<lparr>sr_chainId = chainId cfg, sr_contractAddress = contractAddress cfg,
           sr_blockNumber = n\<rparr>"
proof -
  let ?mine = "\<lambda>r. sr_chainId r = chainId cfg \<and> sr_contractAddress r = contractAddress cfg"
  let ?row = "\<lparr>sr_chainId = chainId cfg, sr_contractAddress = contractAddress cfg,
                 sr_blockNumber = n\<rparr>"
  have a: "\<And>rs. list_ex ?mine rs \<Longrightarrow>
      find ?mine (map (\<lambda>r. if ?mine r then ?row else r) rs) = Some ?row"
  proof -
    fix rs show "list_ex ?mine rs \<Longrightarrow>
      find ?mine (map (\<lambda>r. if ?mine r then ?row else r) rs) = Some ?row"
      by (induction rs) auto
  qed
  have b: "\<And>rs. \<not> list_ex ?mine rs \<Longrightarrow> find ?mine (rs @ [?row]) = Some ?row"
  proof -
    fix rs show "\<not> list_ex ?mine rs \<Longrightarrow> find ?mine (rs @ [?row]) = Some ?row"
      by (induction rs) auto
  qed
  show ?thesis
    using a[of "blockchain_sync_records w"] b[of "blockchain_sync_records w"]
    by (simp add: findSyncRecord_def upsertSyncRecord_def Let_def)
qed

lemma cursor_after_upsert: "cursorOf cfg (upsertSyncRecord cfg n w) = Some n"
  by (simp add: cursorOf_def upsertSyncRecord_find)

lemma baseUpdateOrCreate_cases:
  "baseUpdateOrCreate cfg n w =
     (if faultAt (faults w) 0 then (Inl StoreError, w\<lparr>faults := drop 1 (faults w)\<rparr>)
      else (Inr (), (upsertSyncRecord cfg n (w\<lparr>faults := drop 1 (faults w)\<rparr>))
                      \<lparr>journal := journal w @ [ [CursorWrite n] ]\<rparr>))"
  by (simp add: baseUpdateOrCreate_def autocommit_def attempt_cases upsertSyncRecord_def Let_def)


lemma cursor_frame:
  "blockchain_sync_records w' = blockchain_sync_records w \<Longrightarrow> cursorOf cfg w' = cursorOf cfg w"
  by (simp add: cursorOf_def findSyncRecord_def)

lemma saveCursor_result:
  assumes "saveCursor cfg q n w = (r, q', w')"
  shows "q' = q \<and> (case r of Inl e \<Rightarrow> cursorOf cfg w' = cursorOf cfg w
                      | Inr _ \<Rightarrow> cursorOf cfg w' = Some n)"
proof (cases "faultAt (faults w) 0")
  case True
  have "cursorOf cfg (w\<lparr>faults := drop 1 (faults w)\<rparr>) = cursorOf cfg w"
    by (rule cursor_frame) simp
  with True assms show ?thesis
    by (auto simp: saveCursor_def baseUpdateOrCreate_cases)
next
  case False
  have "cursorOf cfg ((upsertSyncRecord cfg n (w\<lparr>faults := drop 1 (faults w)\<rparr>))
                      \<lparr>journal := journal w @ [ [CursorWrite n] ]\<rparr>) = Some n"
    using cursor_after_upsert[of cfg n "w\<lparr>faults := drop 1 (faults w)\<rparr>"]
    by (simp add: cursorOf_def findSyncRecord_def)
  with False assms show ?thesis
    by (auto simp: saveCursor_def baseUpdateOrCreate_cases)
qed

subsection \<open>The shape of the event handlers\<close>

lemma handleReorg_shape:
  "snd (handleReorg ch event w)
     = snd (findOrCreateBlockchainTransaction Polygon (ev_transactionHash event) None w)
   \<or> (\<exists>tid s b bs. snd (handleReorg ch event w)
         = snd (updateTxAndBlockchainTxState tid s None b bs
                 (snd (findOrCreateBlockchainTransaction Polygon (ev_transactionHash event)
                         None w))))"
proof (cases "findOrCreateBlockchainTransaction Polygon (ev_transactionHash event) None w")
  case (Pair r0 w1)
  show ?thesis
  proof (cases r0)
    case (Inl e)
    with Pair show ?thesis by (simp add: handleReorg_def)
  next
    case (Inr b)
    show ?thesis
    proof (cases "bc_transactionId b")
      case None
      with Pair Inr show ?thesis by (simp add: handleReorg_def)
    next
      case (Some tid)
      have "snd (handleReorg ch event w) = w1
          \<or> snd (handleReorg ch event w)
               = snd (updateTxAndBlockchainTxState tid pending None (bc_id b) bc_pending w1)
          \<or> snd (handleReorg ch event w)
               = snd (updateTxAndBlockchainTxState tid failed None (bc_id b) bc_reverted w1)
          \<or> snd (handleReorg ch event w)
               = snd (updateTxAndBlockchainTxState tid succeeded None (bc_id b) bc_succeeded w1)"
        using Pair Inr Some
        by (simp add: handleReorg_def resetBothTxAndBlockchainTx_def
            failBothTxAndBlockchainTx_def succeedBothTxAndBlockchainTx_def Let_def
            split: option.splits)
      with Pair show ?thesis by (elim disjE) (simp, (intro disjI2 exI, simp)+)
    qed
  qed
qed

lemma reconcile_shape:
  "snd (reconcile cfg b cu cr art d w) = w
   \<or> (\<exists>i. snd (reconcile cfg b cu cr art d w) = snd (markTransactionStateAs i succeeded None w))
   \<or> (\<exists>tx row. snd (reconcile cfg b cu cr art d w) = snd (cancelAndReplace tx row b w))
   \<or> (\<exists>row. snd (reconcile cfg b cu cr art d w) = snd (createAndLink row b w))"
proof (cases "bc_transactionId b")
  case None
  then show ?thesis by (auto simp: reconcile_def Let_def)
next
  case (Some tid)
  note tid = this
  show ?thesis
  proof (cases "baseFindById tid w")
    case None
    with tid show ?thesis by (simp add: reconcile_def Let_def)
  next
    case (Some tx)
    show ?thesis
    proof (cases "linkedTxValid cfg tx cu cr art d")
      case (Inl e)
      with Some tid show ?thesis by (simp add: reconcile_def Let_def)
    next
      case (Inr v)
      with Some tid show ?thesis
        by (cases v) (auto simp: reconcile_def Let_def)
    qed
  qed
qed

lemma handleAddition_shape:
  "snd (handleAddition cfg event w)
     = snd (findOrCreateBlockchainTransaction Polygon (ev_transactionHash event)
              (Some bc_succeeded) w)
   \<or> (\<exists>b cu cr art d. snd (handleAddition cfg event w)
         = snd (reconcile cfg b cu cr art d
                 (snd (findOrCreateBlockchainTransaction Polygon (ev_transactionHash event)
                         (Some bc_succeeded) w))))"
proof (cases "findOrCreateBlockchainTransaction Polygon (ev_transactionHash event)
                (Some bc_succeeded) w")
  case (Pair r0 w1)
  show ?thesis
  proof (cases r0)
    case (Inl e)
    with Pair show ?thesis by (simp add: handleAddition_def)
  next
    case (Inr b)
    let ?d = "mirrorData cfg b (ev_args event)"
    show ?thesis
    proof (cases "resolveDonation cfg ?d w1")
      case None
      with Pair Inr show ?thesis by (simp add: handleAddition_def Let_def)
    next
      case (Some p)
      obtain cu cr art where p: "p = (cu, cr, art)" by (cases p)
      have "snd (handleAddition cfg event w) = w1
          \<or> snd (handleAddition cfg event w) = snd (reconcile cfg b cu cr art ?d w1)"
        using Pair Inr Some p
        by (cases "reconcile cfg b cu cr art ?d w1")
          (auto simp: handleAddition_def Let_def split: sum.splits)
      with Pair show ?thesis by (elim disjE) (simp, (intro disjI2 exI, simp))
    qed
  qed
qed

lemma syncCurationEvent_snd:
  "snd (syncCurationEvent cfg ch event w) =
     (if ev_removed event then snd (handleReorg ch event w)
      else snd (handleAddition cfg event w))"
  by (simp add: syncCurationEvent_def split: prod.splits sum.splits)

text \<open>No operation on events touches the sync record.\<close>

lemma sync_records_primitives:
  "blockchain_sync_records (snd (updateTxAndBlockchainTxState i s r b bs w))
     = blockchain_sync_records w"
  "blockchain_sync_records (snd (findOrCreateBlockchainTransaction c h st w))
     = blockchain_sync_records w"
  "blockchain_sync_records (snd (markTransactionStateAs i s r w)) = blockchain_sync_records w"
  "blockchain_sync_records (snd (cancelAndReplace tx row bt w)) = blockchain_sync_records w"
  "blockchain_sync_records (snd (createAndLink row bt w)) = blockchain_sync_records w"
  "blockchain_sync_records (snd (batchCreate ds w)) = blockchain_sync_records w"
  by (auto simp: updateTxAndBlockchainTxState_def findOrCreateBlockchainTransaction_def
      markTransactionStateAs_def cancelAndReplace_def createAndLink_def batchCreate_def
      autocommit_def attempt_cases commit_def rollback_def insertTransaction_def
      insertBlockchainTransaction_def batchUpsertCurationEvents_def Let_def
      split: prod.splits sum.splits option.splits)

lemma sync_records_event:
  "blockchain_sync_records (snd (syncCurationEvent cfg ch event w)) = blockchain_sync_records w"
proof (cases "ev_removed event")
  case True
  with handleReorg_shape[of ch event w] show ?thesis
    by (auto simp: syncCurationEvent_snd sync_records_primitives)
next
  case False
  from handleAddition_shape[of cfg event w] show ?thesis
  proof
    assume "snd (handleAddition cfg event w)
     = snd (findOrCreateBlockchainTransaction Polygon (ev_transactionHash event)
              (Some bc_succeeded) w)"
    with False show ?thesis by (simp add: syncCurationEvent_snd sync_records_primitives)
  next
    assume "\<exists>b cu cr art d. snd (handleAddition cfg event w)
         = snd (reconcile cfg b cu cr art d
                 (snd (findOrCreateBlockchainTransaction Polygon (ev_transactionHash event)
                         (Some bc_succeeded) w)))"
    then obtain b cu cr art d where
      e: "snd (handleAddition cfg event w)
         = snd (reconcile cfg b cu cr art d
                 (snd (findOrCreateBlockchainTransaction Polygon (ev_transactionHash event)
                         (Some bc_succeeded) w)))"
      by blast
    from reconcile_shape[of cfg b cu cr art d
        "snd (findOrCreateBlockchainTransaction Polygon (ev_transactionHash event)
                         (Some bc_succeeded) w)"]
    have "blockchain_sync_records (snd (reconcile cfg b cu cr art d
                 (snd (findOrCreateBlockchainTransaction Polygon (ev_transactionHash event)
                         (Some bc_succeeded) w)))) = blockchain_sync_records w"
      by (auto simp: sync_records_primitives)
    with e False show ?thesis by (simp add: syncCurationEvent_snd)
  qed
qed

lemma sync_records_loop:
  "blockchain_sync_records (snd (syncLoop cfg ch events acc w)) = blockchain_sync_records w"
proof (induction events arbitrary: acc w)
  case Nil
  then show ?case by simp
next
  case (Cons e es)
  show ?case
  proof (cases "syncCurationEvent cfg ch e w")
    case (Pair r w1)
    have w1: "blockchain_sync_records w1 = blockchain_sync_records w"
      using sync_records_event[of cfg ch e w] Pair by simp
    show ?thesis
    proof (cases r)
      case (Inl err)
      with Pair w1 show ?thesis by simp
    next
      case (Inr ds)
      with Pair w1 Cons.IH[of "acc @ ds" w1] show ?thesis by simp
    qed
  qed
qed

lemma sync_records_batch:
  "blockchain_sync_records (snd (syncCurationEvents cfg ch events w)) = blockchain_sync_records w"
proof (cases "syncLoop cfg ch events [] w")
  case (Pair r w1)
  have w1: "blockchain_sync_records w1 = blockchain_sync_records w"
    using sync_records_loop[of cfg ch events "[]" w] Pair by simp
  show ?thesis
  proof (cases r)
    case (Inl e)
    with Pair w1 show ?thesis by (simp add: syncCurationEvents_def)
  next
    case (Inr ds)
    with Pair w1 sync_records_primitives(6)[of ds w1] show ?thesis
      by (cases "batchCreate ds w1") (auto simp: syncCurationEvents_def split: sum.splits)
  qed
qed

subsection \<open>One run of the synchronizer\<close>

lemma cursor_batch: "cursorOf cfg (snd (syncCurationEvents cfg' ch events w)) = cursorOf cfg w"
  by (rule cursor_frame) (rule sync_records_batch)

lemma ex_scenario_cursor:
  "cursorOf exConfig (snd (snd (handleSyncCurationEvents exConfig exCatchUpChain exEmptyStore)))
     = Some 500"
  by code_simp

lemma ex_catch_up_result:
  "fst (handleSyncCurationEvents exConfig exCatchUpChain exEmptyStore) = Inr ()"
  by code_simp

lemma ex_catch_up_filtered:
  "map ev_blockNumber
     (withinSafeHeight
        (int (getBlockNumber exCatchUpChain) - int (BLOCKCHAIN_SAFE_CONFIRMS exConfig))
        (curationLogs exCatchUpChain)) = [500]"
  by code_simp

lemma ex_incremental:
  "handleSyncCurationEvents exConfig exTallChain (exCursorStore 2000)
     = (Inr (), Some (2001, 4000),
        (exCursorStore 4000)\<lparr>journal := [ [EventsUpsert [] ], [CursorWrite 4000] ]\<rparr>)"
  by code_simp

lemma syncCurationEvents_count:
  "syncCurationEvents cfg ch events w = (Inr n, w1) \<Longrightarrow> n = length events"
  by (auto simp: syncCurationEvents_def split: prod.splits sum.splits)

lemma saveCursor_tables:
  assumes "saveCursor cfg q n w = (r, q', w')"
  shows "transactions w' = transactions w"
    and "blockchain_transactions w' = blockchain_transactions w"
    and "blockchain_curation_events w' = blockchain_curation_events w"
  using assms
  by (auto simp: saveCursor_def baseUpdateOrCreate_cases upsertSyncRecord_def Let_def
      split: if_splits)

lemma catchUp_success:
  assumes "syncCatchUp cfg ch safe w = (Inr (), q, w')"
  shows "q = None
     \<and> fst (syncCurationEvents cfg ch
               (withinSafeHeight safe (curationLogs ch)) w)
           = Inr (length (withinSafeHeight safe (curationLogs ch)))
     \<and> transactions w' = transactions (snd (syncCurationEvents cfg ch
               (withinSafeHeight safe (curationLogs ch)) w))
     \<and> blockchain_transactions w' = blockchain_transactions (snd (syncCurationEvents cfg ch
               (withinSafeHeight safe (curationLogs ch)) w))
     \<and> blockchain_curation_events w' = blockchain_curation_events (snd (syncCurationEvents cfg ch
               (withinSafeHeight safe (curationLogs ch)) w))
     \<and> cursorOf cfg w'
           = Some (if length (curationLogs ch)
                        = length (withinSafeHeight safe (curationLogs ch))
                   then safe
                   else int (ev_blockNumber
                          (last (withinSafeHeight safe (curationLogs ch)))))
     \<and> (length (curationLogs ch)
           \<noteq> length (withinSafeHeight safe (curationLogs ch))
         \<longrightarrow> withinSafeHeight safe (curationLogs ch) \<noteq> [])"
proof -
  let ?filtered = "withinSafeHeight safe (curationLogs ch)"
  let ?to = "if length (curationLogs ch) = length ?filtered then safe
             else int (ev_blockNumber (last ?filtered))"
  obtain r1 w1 where s: "syncCurationEvents cfg ch ?filtered w = (r1, w1)"
    by (cases "syncCurationEvents cfg ch ?filtered w")
  from assms s obtain n where r1: "r1 = Inr n"
    by (cases r1) (auto simp: syncCatchUp_def withinSafeHeight_def queryFilter_def Let_def)
  with s have n: "n = length ?filtered" by (simp add: syncCurationEvents_count)
  have ne: "length (curationLogs ch) \<noteq> length ?filtered \<longrightarrow> ?filtered \<noteq> []"
    using assms s r1
    by (auto simp: syncCatchUp_def withinSafeHeight_def queryFilter_def Let_def split: list.splits if_splits)
  have save: "saveCursor cfg None ?to w1 = (Inr (), q, w')"
    using assms s r1
    by (auto simp: syncCatchUp_def withinSafeHeight_def queryFilter_def Let_def split: list.splits if_splits)
  from saveCursor_result[OF save] saveCursor_tables[OF save] s r1 n ne show ?thesis
    by simp
qed

lemma cursorLe_refl [simp]: "cursorLe a a"
  by (cases a) (simp_all add: cursorLe_def)

lemma cursorLe_trans: "cursorLe a b \<Longrightarrow> cursorLe b c \<Longrightarrow> cursorLe a c"
  by (cases a; cases b; cases c) (simp_all add: cursorLe_def)

lemma cursorSafe_mono: "cursorSafe cfg h w \<Longrightarrow> h \<le> h' \<Longrightarrow> cursorSafe cfg h' w"
  by (cases "cursorOf cfg w") (simp_all add: cursorSafe_def)

lemma catchUp_cursor:
  assumes "syncCatchUp cfg ch safe w = (r, q, w')"
  shows "q = None \<and> (cursorOf cfg w' = cursorOf cfg w
            \<or> (\<exists>c. cursorOf cfg w' = Some c \<and> c \<le> safe \<and> (c = safe \<or> 0 \<le> c)))"
proof -
  let ?filtered = "withinSafeHeight safe (curationLogs ch)"
  obtain r1 w1 where s: "syncCurationEvents cfg ch ?filtered w = (r1, w1)"
    by (cases "syncCurationEvents cfg ch ?filtered w")
  have c1: "cursorOf cfg w1 = cursorOf cfg w"
    using cursor_batch[of cfg cfg ch ?filtered w] s by simp
  show ?thesis
  proof (cases r1)
    case (Inl e)
    with assms s c1 show ?thesis
      by (auto simp: syncCatchUp_def withinSafeHeight_def queryFilter_def Let_def)
  next
    case (Inr n)
    show ?thesis
    proof (cases "length (curationLogs ch) = length ?filtered")
      case True
      with assms s Inr have save: "saveCursor cfg None safe w1 = (r, q, w')"
        by (simp add: syncCatchUp_def withinSafeHeight_def queryFilter_def Let_def)
      from saveCursor_result[OF save] c1 show ?thesis
        by (cases r) auto
    next
      case False
      show ?thesis
      proof (cases "?filtered = []")
        case True
        with assms s Inr False c1 show ?thesis
          by (auto simp: syncCatchUp_def withinSafeHeight_def queryFilter_def Let_def)
      next
        case nonempty: False
        let ?c = "int (ev_blockNumber (last ?filtered))"
        from nonempty have "last ?filtered \<in> set ?filtered" by (rule last_in_set)
        then have le: "?c \<le> safe" by (simp add: withinSafeHeight_def)
        from assms s Inr False nonempty
        have save: "saveCursor cfg None ?c w1 = (r, q, w')"
          by (auto simp: syncCatchUp_def withinSafeHeight_def queryFilter_def Let_def split: list.splits)
        from saveCursor_result[OF save] c1 le show ?thesis
          by (cases r) auto
      qed
    qed
  qed
qed

lemma incremental_cursor:
  assumes "syncIncremental cfg ch safe f w = (r, q, w')"
  shows "q = Some (f, min safe (f + 1999))
     \<and> (cursorOf cfg w' = cursorOf cfg w \<or> cursorOf cfg w' = Some (min safe (f + 1999)))"
proof -
  let ?events = "queryFilter ch (Some (f, min safe (f + 1999)))"
  obtain r1 w1 where s: "syncCurationEvents cfg ch ?events w = (r1, w1)"
    by (cases "syncCurationEvents cfg ch ?events w")
  have c1: "cursorOf cfg w1 = cursorOf cfg w"
    using cursor_batch[of cfg cfg ch ?events w] s by simp
  show ?thesis
  proof (cases r1)
    case (Inl e)
    with assms s c1 show ?thesis by (auto simp: syncIncremental_def Let_def)
  next
    case (Inr n)
    with assms s have save:
      "saveCursor cfg (Some (f, min safe (f + 1999))) (min safe (f + 1999)) w1 = (r, q, w')"
      by (simp add: syncIncremental_def Let_def)
    from saveCursor_result[OF save] c1 show ?thesis
      by (cases r) auto
  qed
qed

lemma run_cursor:
  assumes "cursorSafe cfg (getBlockNumber ch) w"
    and "handleSyncCurationEvents cfg ch w = (r, q, w')"
  shows "cursorLe (cursorOf cfg w) (cursorOf cfg w')
     \<and> cursorSafe cfg (getBlockNumber ch) w'
     \<and> (case q of None \<Rightarrow> True | Some (f, t) \<Rightarrow> cursorOf cfg w = Some (f - 1))"
proof -
  let ?safe = "int (getBlockNumber ch) - int (BLOCKCHAIN_SAFE_CONFIRMS cfg)"
  show ?thesis
  proof (cases "findSyncRecord cfg w")
    case None
    then have c0: "cursorOf cfg w = None" by (simp add: cursorOf_def)
    from assms(2) None have "syncCatchUp cfg ch ?safe w = (r, q, w')"
      by (simp add: handleSyncCurationEvents_def)
    from catchUp_cursor[OF this] c0 show ?thesis
      by (auto simp: cursorLe_def cursorSafe_def)
  next
    case (Some row)
    then have c0: "cursorOf cfg w = Some (sr_blockNumber row)" by (simp add: cursorOf_def)
    with assms(1) have safe: "sr_blockNumber row \<le> ?safe" by (simp add: cursorSafe_def)
    show ?thesis
    proof (cases "sr_blockNumber row + 1 = 0")
      case True
      with assms(2) Some have "syncCatchUp cfg ch ?safe w = (r, q, w')"
        by (simp add: handleSyncCurationEvents_def)
      from catchUp_cursor[OF this] c0 safe True show ?thesis
        by (auto simp: cursorLe_def cursorSafe_def)
    next
      case False
      with assms(2) Some
      have "syncIncremental cfg ch ?safe (sr_blockNumber row + 1) w = (r, q, w')"
        by (simp add: handleSyncCurationEvents_def)
      from incremental_cursor[OF this] c0 safe show ?thesis
        by (auto simp: cursorLe_def cursorSafe_def)
    qed
  qed
qed

lemma ex_runs:
  "syncRuns exConfig [exCatchUpChain, exTallChain] exEmptyStore
     = [(None, None, Some 500), (Some 500, Some (501, 2500), Some 2500)]"
  by code_simp

section \<open>Removal events\<close>



section \<open>Which units write ledger states\<close>

text \<open>
  Claim C2, as stated: every transition of a ledger transaction into a terminal state, by
  the event synchronizer or by the pay-to verifier, is committed by the shared helper as a
  paired update that also writes the state of the linked blockchain transaction. It does
  not hold for additions: the unit that supersedes a stale ledger transaction cancels it
  together with the creation of its replacement and the repointing of the link, and
  writes no blockchain-transaction state.
\<close>

theorem terminal_write_outside_helper:
  "\<not> list_all pairedUnit
       (newUnits (exStore pending bc_pending exRecipient)
          (snd (syncCurationEvent exConfig (exChain None) (exEvent False 5)
                  (exStore pending bc_pending exRecipient))))"
  by (simp add: ex_units_supersede pairedUnit_def terminal_def)

text \<open>
  When the linked ledger transaction agrees with the decoded donation, the synchronizer
  marks it succeeded in a unit of its own.
\<close>

lemma confirmation_unit_of_addition:
  "newUnits (exStore pending bc_pending exRecipient)
     (snd (syncCurationEvent exConfig (exChain None) (exEvent False 10000000)
             (exStore pending bc_pending exRecipient)))
     = [ [TxState 7 succeeded None] ]"
  by (rule ex_units_confirm)

text \<open>
  Claim C2, amended. Every unit committed by a pay-to verification attempt is a unit of
  the shared helper: one write of the ledger state followed by one write of the state of
  the blockchain transaction linked to that ledger transaction. Every unit committed
  while a removal event is processed is such a unit or writes no ledger row. While an
  addition event is processed, a unit that cancels a ledger transaction is the
  superseding unit: the cancel with remark \<open>invalid\<close>, the creation of the replacement in
  state succeeded and the repointing of the link to it. This holds whether or not
  statements of the store fail.
\<close>

theorem verifier_and_removal_writes_paired:
  "list_all (helperUnitOf w) (newUnits w (snd (handlePayTo cfg ch txId w)))
   \<and> (ev_removed event \<longrightarrow>
        list_all (\<lambda>u. helperUnitOf w u \<or> \<not> list_ex ledgerWrite u)
          (newUnits w (snd (syncCurationEvent cfg ch event w))))
   \<and> (\<not> ev_removed event \<longrightarrow>
        list_all (\<lambda>u. list_ex cancelWrite u \<longrightarrow> supersedeUnit u)
          (newUnits w (snd (syncCurationEvent cfg ch event w))))"
  using payTo_units removal_units addition_units by blast

theorem verifier_and_removal_writes_paired_witness:
  "(let w = exStore pending bc_pending exRecipient
    in newUnits w (snd (handlePayTo exConfig (exChain (Some (exReceipt 0 5))) 7 w))
         = [ [TxState 7 failed None, BcState 3 bc_reverted] ]
       \<and> helperUnitOf w [TxState 7 failed None, BcState 3 bc_reverted])
   \<and> (let w = exStore succeeded bc_succeeded exRecipient
       in newUnits w (snd (syncCurationEvent exConfig (exChain None) (exEvent True 5) w))
            = [ [TxState 7 pending None, BcState 3 bc_pending] ]
          \<and> helperUnitOf w [TxState 7 pending None, BcState 3 bc_pending])
   \<and> (let w = exStore pending bc_pending exRecipient
       in newUnits w (snd (syncCurationEvent exConfig (exChain None) (exEvent False 5) w))
            = [ [TxState 7 canceled (Some INVALID), TxCreate 8 succeeded, BcLink 3 8] ]
          \<and> supersedeUnit [TxState 7 canceled (Some INVALID), TxCreate 8 succeeded,
                            BcLink 3 8])"
proof -
  note u1 = ex_units_verifier and u2 = ex_units_removal and u3 = ex_units_supersede
  have rm: "ev_removed (exEvent True 5)" "\<not> ev_removed (exEvent False 5)"
    by (simp_all add: ex_event_fields)
  note a = verifier_and_removal_writes_paired[of "exStore pending bc_pending exRecipient"
      exConfig "exChain (Some (exReceipt 0 5))" 7 "exEvent True 5"]
  note b = verifier_and_removal_writes_paired[of "exStore succeeded bc_succeeded exRecipient"
      exConfig "exChain None" 7 "exEvent True 5"]
  note c = verifier_and_removal_writes_paired[of "exStore pending bc_pending exRecipient"
      exConfig "exChain None" 7 "exEvent False 5"]
  have a': "helperUnitOf (exStore pending bc_pending exRecipient)
              [TxState 7 failed None, BcState 3 bc_reverted]"
    using a[THEN conjunct1] unfolding u1 by simp
  have b': "helperUnitOf (exStore succeeded bc_succeeded exRecipient)
              [TxState 7 pending None, BcState 3 bc_pending]"
    using b[THEN conjunct2, THEN conjunct1, THEN mp, OF rm(1)] unfolding u2 by simp
  have c': "supersedeUnit [TxState 7 canceled (Some INVALID), TxCreate 8 succeeded, BcLink 3 8]"
    using c[THEN conjunct2, THEN conjunct2, THEN mp, OF rm(2)] unfolding u3 by simp
  show ?thesis
    unfolding Let_def
    by (intro conjI) (rule u1 u2 u3 a' b' c')+
qed

section \<open>Catch-up runs\<close>

text \<open>
  Claim C3, as stated, ends with a scenario: chain height 1000, 12 safe confirmations (safe
  height 988), events at blocks 500, 990 and 995; the filtered set is said to be
  [500, 990] and the cursor to become 990. The filter keeps the events at blocks not
  above 988, so the event at block 990 is not processed and the cursor is not 990.
\<close>

theorem catch_up_scenario_cursor_is_500:
  "map ev_blockNumber
     (withinSafeHeight
        (int (getBlockNumber exCatchUpChain) - int (BLOCKCHAIN_SAFE_CONFIRMS exConfig))
        (curationLogs exCatchUpChain)) \<noteq> [500, 990]
   \<and> cursorOf exConfig
         (snd (snd (handleSyncCurationEvents exConfig exCatchUpChain exEmptyStore)))
       \<noteq> Some 990"
  by (simp add: ex_catch_up_filtered ex_scenario_cursor)

text \<open>
  Claim C3, amended. In catch-up mode (no sync record), a run that completes has queried
  all events without a block range, has processed exactly the events at block numbers not
  above the safe height, and has persisted the cursor: the safe height when no event was
  filtered out, the block number of the last processed event otherwise (some event was
  then processed). In the scenario the filtered set is [500] and the cursor becomes 500.
\<close>

theorem catch_up_cursor:
  assumes "findSyncRecord cfg w = None"
    and "handleSyncCurationEvents cfg ch w = (Inr (), q, w')"
  shows "let safeHeight = int (getBlockNumber ch) - int (BLOCKCHAIN_SAFE_CONFIRMS cfg);
             events = queryFilter ch None;
             filtered = withinSafeHeight safeHeight events;
             processed = syncCurationEvents cfg ch filtered w
         in q = None
            \<and> fst processed = Inr (length filtered)
            \<and> transactions w' = transactions (snd processed)
            \<and> blockchain_transactions w' = blockchain_transactions (snd processed)
            \<and> blockchain_curation_events w' = blockchain_curation_events (snd processed)
            \<and> cursorOf cfg w'
                 = Some (if length events = length filtered then safeHeight
                         else int (ev_blockNumber (last filtered)))
            \<and> (length events \<noteq> length filtered \<longrightarrow> filtered \<noteq> [])"
proof -
  have "syncCatchUp cfg ch (int (getBlockNumber ch) - int (BLOCKCHAIN_SAFE_CONFIRMS cfg)) w
          = (Inr (), q, w')"
    using assms by (simp add: handleSyncCurationEvents_def)
  from catchUp_success[OF this] show ?thesis
    by (simp add: Let_def queryFilter_def)
qed

theorem catch_up_cursor_witness:
  "map ev_blockNumber
     (withinSafeHeight 988 (curationLogs exCatchUpChain)) = [500]
   \<and> cursorOf exConfig
         (snd (snd (handleSyncCurationEvents exConfig exCatchUpChain exEmptyStore)))
       = Some 500"
proof -
  have none: "findSyncRecord exConfig exEmptyStore = None"
    by (simp add: findSyncRecord_def exEmptyStore_def)
  obtain q w' where run: "handleSyncCurationEvents exConfig exCatchUpChain exEmptyStore
      = (Inr (), q, w')"
    using ex_catch_up_result
    by (cases "handleSyncCurationEvents exConfig exCatchUpChain exEmptyStore") auto
  have safe: "int (getBlockNumber exCatchUpChain) - int (BLOCKCHAIN_SAFE_CONFIRMS exConfig) = 988"
    by (simp add: exCatchUpChain_def exConfig_def)
  have f: "withinSafeHeight 988 (curationLogs exCatchUpChain)
      = [exForeignEvent ''0xb1'' 500]"
    by (simp add: withinSafeHeight_def exCatchUpChain_def exForeignEvent_def)
  from catch_up_cursor[OF none run] run show ?thesis
    by (simp add: Let_def safe queryFilter_def f) (simp add: exCatchUpChain_def exForeignEvent_def)
qed

text \<open>
  When every event lies beyond the safe height, no event is processed, the block number of
  the last processed event is read from nothing, and the run throws before the cursor is
  written.
\<close>

lemma catch_up_beyond_safe_height_throws:
  "fst (handleSyncCurationEvents exConfig exLateChain exEmptyStore) = Inl TypeError"
  "cursorOf exConfig (snd (snd (handleSyncCurationEvents exConfig exLateChain exEmptyStore)))
     = None"
  by code_simp+

section \<open>Incremental runs\<close>

text \<open>
  Claim C4, as stated, ends with a scenario: cursor 2000, safe height 5000; the queried
  range is said to be [2001, 3999] and the cursor afterwards 3999. The upper bound is
  \<open>min(safeBlockNum, fromBlockNum + 1999)\<close> with \<open>fromBlockNum = 2001\<close>, that is 4000.
\<close>

theorem incremental_scenario_upper_is_4000:
  "fst (snd (handleSyncCurationEvents exConfig exTallChain (exCursorStore 2000)))
     \<noteq> Some (2001, 3999)
   \<and> cursorOf exConfig
         (snd (snd (handleSyncCurationEvents exConfig exTallChain (exCursorStore 2000))))
       \<noteq> Some 3999"
proof -
  have "cursorOf exConfig ((exCursorStore 4000)\<lparr>journal := [ [EventsUpsert [] ], [CursorWrite 4000] ]\<rparr>)
          = Some 4000"
    by code_simp
  then show ?thesis by (simp add: ex_incremental)
qed

text \<open>
  Claim C4, amended. In incremental mode (a sync record exists, with a block number other
  than -1) a run queries exactly the block range from cursor + 1 to the minimum of the safe
  height and cursor + 1 + 1999; when it completes it has processed the events of that
  range and persisted the upper bound as the cursor, and when it fails the cursor is as
  before. In the scenario the range is [2001, 4000] and the cursor becomes 4000.
\<close>

theorem incremental_range:
  assumes "findSyncRecord cfg w = Some record" and "sr_blockNumber record \<noteq> - 1"
    and "handleSyncCurationEvents cfg ch w = (r, q, w')"
  shows "let safeHeight = int (getBlockNumber ch) - int (BLOCKCHAIN_SAFE_CONFIRMS cfg);
             cursor = sr_blockNumber record;
             upper = min safeHeight (cursor + 1 + 1999);
             processed = syncCurationEvents cfg ch (queryFilter ch (Some (cursor + 1, upper))) w
         in q = Some (cursor + 1, upper)
            \<and> (case r of
                  Inr _ \<Rightarrow>
                    fst processed = Inr (length (queryFilter ch (Some (cursor + 1, upper))))
                    \<and> transactions w' = transactions (snd processed)
                    \<and> blockchain_transactions w' = blockchain_transactions (snd processed)
                    \<and> blockchain_curation_events w' = blockchain_curation_events (snd processed)
                    \<and> cursorOf cfg w' = Some upper
                | Inl e \<Rightarrow> cursorOf cfg w' = Some cursor)"
proof -
  let ?safe = "int (getBlockNumber ch) - int (BLOCKCHAIN_SAFE_CONFIRMS cfg)"
  let ?from = "sr_blockNumber record + 1"
  let ?to = "min ?safe (?from + 1999)"
  let ?events = "queryFilter ch (Some (?from, ?to))"
  have c0: "cursorOf cfg w = Some (sr_blockNumber record)"
    using assms(1) by (simp add: cursorOf_def)
  have inc: "syncIncremental cfg ch ?safe ?from w = (r, q, w')"
    using assms by (simp add: handleSyncCurationEvents_def)
  obtain r1 w1 where s: "syncCurationEvents cfg ch ?events w = (r1, w1)"
    by (cases "syncCurationEvents cfg ch ?events w")
  have c1: "cursorOf cfg w1 = cursorOf cfg w"
    using cursor_batch[of cfg cfg ch ?events w] s by simp
  show ?thesis
  proof (cases r1)
    case (Inl e)
    with inc s c0 c1 show ?thesis
      by (auto simp: syncIncremental_def Let_def)
  next
    case (Inr n)
    with s have n: "n = length ?events" by (simp add: syncCurationEvents_count)
    from inc s Inr have save: "saveCursor cfg (Some (?from, ?to)) ?to w1 = (r, q, w')"
      by (simp add: syncIncremental_def Let_def)
    from saveCursor_result[OF save] saveCursor_tables[OF save] s Inr n c0 c1 show ?thesis
      by (cases r) (simp_all add: Let_def)
  qed
qed

theorem incremental_range_witness:
  "fst (snd (handleSyncCurationEvents exConfig exTallChain (exCursorStore 2000)))
     = Some (2001, 4000)
   \<and> cursorOf exConfig
         (snd (snd (handleSyncCurationEvents exConfig exTallChain (exCursorStore 2000))))
       = Some 4000"
proof -
  let ?rec = "\<lparr>sr_chainId = ''137'', sr_contractAddress = ''0xc0'', sr_blockNumber = 2000\<rparr>"
  have rec: "findSyncRecord exConfig (exCursorStore 2000) = Some ?rec"
    by (simp add: findSyncRecord_def exCursorStore_def exEmptyStore_def exConfig_def
        contractAddress_def ex_lower)
  have ne: "sr_blockNumber ?rec \<noteq> - 1" by simp
  obtain q w' where run: "handleSyncCurationEvents exConfig exTallChain (exCursorStore 2000)
      = (Inr (), q, w')"
    by (simp add: ex_incremental)
  from incremental_range[OF rec ne run] run show ?thesis
    by (simp add: Let_def exTallChain_def exConfig_def)
qed

text \<open>
  A sync record with block number -1 gives \<open>fromBlockNum = 0\<close>, which the test
  \<open>!fromBlockNum\<close> takes for a missing record: the run is a catch-up run.
\<close>

lemma cursor_minus_one_runs_catch_up:
  "fst (snd (handleSyncCurationEvents exConfig exCatchUpChain (exCursorStore (- 1)))) = None"
  "cursorOf exConfig
     (snd (snd (handleSyncCurationEvents exConfig exCatchUpChain (exCursorStore (- 1)))))
     = Some 500"
  by code_simp+

section \<open>The cursor over a sequence of runs\<close>

text \<open>
  Claim C9. Over every sequence of sync runs against a chain whose reported height does
  not decrease, the persisted cursor never decreases from one run to a later one, and
  every run that queries a block range starts it right after the cursor it found
  (\<open>fromBlock = cursor + 1\<close>). The sequence starts from a store without sync record, or
  with a cursor that is not beyond the safe height of the first run.
\<close>

theorem cursor_monotone:
  assumes "sorted (map getBlockNumber chs)"
    and "chs \<noteq> [] \<longrightarrow> cursorSafe cfg (getBlockNumber (hd chs)) w"
  shows "sorted_wrt cursorLe (cursorOf cfg w # map (\<lambda>(before, q, after). after) (syncRuns cfg chs w))
     \<and> list_all (\<lambda>(before, q, after).
                   case q of None \<Rightarrow> True | Some (f, t) \<Rightarrow> before = Some (f - 1))
         (syncRuns cfg chs w)"
  using assms
proof (induction chs arbitrary: w)
  case Nil
  then show ?case by simp
next
  case (Cons ch chs)
  obtain r q w' where run: "handleSyncCurationEvents cfg ch w = (r, q, w')"
    by (cases "handleSyncCurationEvents cfg ch w")
  from Cons.prems have safe: "cursorSafe cfg (getBlockNumber ch) w" by simp
  note step = run_cursor[OF safe run]
  have next_safe: "chs \<noteq> [] \<longrightarrow> cursorSafe cfg (getBlockNumber (hd chs)) w'"
  proof
    assume "chs \<noteq> []"
    then have "hd chs \<in> set chs" by simp
    with Cons.prems(1) have "getBlockNumber ch \<le> getBlockNumber (hd chs)" by auto
    with step show "cursorSafe cfg (getBlockNumber (hd chs)) w'"
      by (auto intro: cursorSafe_mono)
  qed
  from Cons.prems(1) have "sorted (map getBlockNumber chs)" by simp
  from Cons.IH[OF this next_safe]
  have ih: "sorted_wrt cursorLe
              (cursorOf cfg w' # map (\<lambda>(before, q, after). after) (syncRuns cfg chs w'))"
    "list_all (\<lambda>(before, q, after).
                   case q of None \<Rightarrow> True | Some (f, t) \<Rightarrow> before = Some (f - 1))
         (syncRuns cfg chs w')"
    by simp_all
  have le: "cursorLe (cursorOf cfg w) (cursorOf cfg w')" using step by simp
  have "\<forall>a \<in> set (map (\<lambda>(before, q, after). after) (syncRuns cfg chs w')).
          cursorLe (cursorOf cfg w) a"
    using ih(1) le by (auto intro: cursorLe_trans)
  with ih le step run show ?case by simp
qed

theorem cursor_monotone_witness:
  "syncRuns exConfig [exCatchUpChain, exTallChain] exEmptyStore
     = [(None, None, Some 500), (Some 500, Some (501, 2500), Some 2500)]
   \<and> sorted_wrt cursorLe [None, Some 500, Some 2500]
   \<and> list_all (\<lambda>(before, q, after).
                   case q of None \<Rightarrow> True | Some (f, t) \<Rightarrow> before = Some (f - 1))
         ([(None, None, Some 500), (Some 500, Some (501, 2500), Some 2500)]
            :: (int option \<times> (int \<times> int) option \<times> int option) list)"
proof -
  have h1: "sorted (map getBlockNumber [exCatchUpChain, exTallChain])"
    by (simp add: exCatchUpChain_def exTallChain_def)
  have h2: "[exCatchUpChain, exTallChain] \<noteq> []
      \<longrightarrow> cursorSafe exConfig (getBlockNumber (hd [exCatchUpChain, exTallChain])) exEmptyStore"
    by (simp add: cursorSafe_def cursorOf_def findSyncRecord_def exEmptyStore_def)
  have c0: "cursorOf exConfig exEmptyStore = None"
    by (simp add: cursorOf_def findSyncRecord_def exEmptyStore_def)
  from cursor_monotone[OF h1 h2] show ?thesis
    unfolding ex_runs c0 by simp
qed

section \<open>The mirror table\<close>

subsection \<open>Hashes keep their blockchain-transaction id; upserts keep keys distinct\<close>

lemma hashId_index:
  "hashId w c h =
     map_option (\<lambda>(c', h', i). i) (find (\<lambda>(c', h', i). c' = c \<and> h' = h) (bcIndex w))"
proof -
  have "\<And>rows. map_option bc_id (find (\<lambda>b. bc_chain b = c \<and> bc_txHash b = h) rows) =
     map_option (\<lambda>(c', h', i). i)
       (find (\<lambda>(c', h', i). c' = c \<and> h' = h)
          (map (\<lambda>b. (bc_chain b, bc_txHash b, bc_id b)) rows))"
  proof -
    fix rows
    show "map_option bc_id (find (\<lambda>b. bc_chain b = c \<and> bc_txHash b = h) rows) =
     map_option (\<lambda>(c', h', i). i)
       (find (\<lambda>(c', h', i). c' = c \<and> h' = h)
          (map (\<lambda>b. (bc_chain b, bc_txHash b, bc_id b)) rows))"
      by (induction rows) auto
  qed
  then show ?thesis by (simp add: hashId_def findBlockchainTransaction_def bcIndex_def)
qed

lemma find_append_Some: "find P xs = Some x \<Longrightarrow> find P (xs @ ys) = Some x"
  by (induction xs) (auto split: if_splits)

lemma hashId_stable:
  assumes "hashId w c h = Some i" and "prefix (bcIndex w) (bcIndex w')"
  shows "hashId w' c h = Some i"
proof -
  from assms(2) obtain xs where xs: "bcIndex w' = bcIndex w @ xs" by (auto simp: prefix_def)
  from assms(1) obtain t where
    t: "find (\<lambda>(c', h', i). c' = c \<and> h' = h) (bcIndex w) = Some t" "(\<lambda>(c', h', i). i) t = i"
    by (auto simp: hashId_index)
  from find_append_Some[OF t(1), of xs] t(2) xs show ?thesis
    by (simp add: hashId_index)
qed

lemma index_same:
  "blockchain_transactions w' = blockchain_transactions w \<Longrightarrow> bcIndex w' = bcIndex w"
  by (simp add: bcIndex_def)

lemma index_primitives:
  "bcIndex (setTransactionState i s r w) = bcIndex w"
  "bcIndex (setBlockchainTransactionState j bs w) = bcIndex w"
  "bcIndex (setBlockchainTransactionLink j n w) = bcIndex w"
  "bcIndex (snd (insertTransaction row w)) = bcIndex w"
  "bcIndex (batchUpsertCurationEvents ds w) = bcIndex w"
  "bcIndex (rollback w t) = bcIndex w"
  "bcIndex (w\<lparr>faults := fs\<rparr>) = bcIndex w"
  "bcIndex (w\<lparr>journal := js\<rparr>) = bcIndex w"
  by (simp_all add: bcIndex_def setTransactionState_def setBlockchainTransactionState_def
      setBlockchainTransactionLink_def insertTransaction_def batchUpsertCurationEvents_def
      rollback_def Let_def comp_def cong: map_cong)

lemma index_statements:
  "bcIndex (snd (updateTxAndBlockchainTxState i s r b bs w)) = bcIndex w"
  "bcIndex (snd (markTransactionStateAs i s r w)) = bcIndex w"
  "bcIndex (snd (cancelAndReplace tx row bt w)) = bcIndex w"
  "bcIndex (snd (createAndLink row bt w)) = bcIndex w"
  "bcIndex (snd (batchCreate ds w)) = bcIndex w"
proof -
  show "bcIndex (snd (updateTxAndBlockchainTxState i s r b bs w)) = bcIndex w"
    by (auto simp: updateTxAndBlockchainTxState_def attempt_cases commit_def index_primitives
        split: prod.splits sum.splits)
  show "bcIndex (snd (markTransactionStateAs i s r w)) = bcIndex w"
    by (auto simp: markTransactionStateAs_def autocommit_def attempt_cases index_primitives)
  show "bcIndex (snd (cancelAndReplace tx row bt w)) = bcIndex w"
    by (auto simp: cancelAndReplace_def attempt_cases commit_def index_primitives
        split: prod.splits sum.splits)
      (metis index_primitives snd_conv)+
  show "bcIndex (snd (createAndLink row bt w)) = bcIndex w"
    by (auto simp: createAndLink_def attempt_cases commit_def index_primitives
        split: prod.splits sum.splits)
      (metis index_primitives snd_conv)+
  show "bcIndex (snd (batchCreate ds w)) = bcIndex w"
    by (auto simp: batchCreate_def attempt_cases commit_def index_primitives
        split: prod.splits sum.splits)
qed

lemma findOrCreate_index:
  "prefix (bcIndex w) (bcIndex (snd (findOrCreateBlockchainTransaction c h st w)))"
  by (auto simp: findOrCreateBlockchainTransaction_def autocommit_def attempt_cases
      insertBlockchainTransaction_def Let_def bcIndex_def split: option.splits)

lemma findOrCreate_hashId:
  assumes "findOrCreateBlockchainTransaction c h st w = (Inr b, w1)"
  shows "hashId w1 c h = Some (bc_id b)"
proof (cases "findBlockchainTransaction c h w")
  case (Some b0)
  with assms show ?thesis
    by (auto simp: findOrCreateBlockchainTransaction_def hashId_def)
next
  case None
  then have "find (\<lambda>x. bc_chain x = c \<and> bc_txHash x = h) (blockchain_transactions w) = None"
    by (simp add: findBlockchainTransaction_def)
  with None assms show ?thesis
    by (auto simp: findOrCreateBlockchainTransaction_def autocommit_def attempt_cases
        insertBlockchainTransaction_def Let_def hashId_def findBlockchainTransaction_def
        find_append_one split: if_splits)
qed

lemma reconcile_index: "bcIndex (snd (reconcile cfg b cu cr art d w)) = bcIndex w"
  using reconcile_shape[of cfg b cu cr art d w] by (auto simp: index_statements)

lemma handleAddition_index:
  "prefix (bcIndex w) (bcIndex (snd (handleAddition cfg event w)))"
  using handleAddition_shape[of cfg event w]
    findOrCreate_index[of w Polygon "ev_transactionHash event" "Some bc_succeeded"]
  by (auto simp: reconcile_index)

lemma handleReorg_index:
  "prefix (bcIndex w) (bcIndex (snd (handleReorg ch event w)))"
  using handleReorg_shape[of ch event w]
    findOrCreate_index[of w Polygon "ev_transactionHash event" None]
  by (auto simp: index_statements)

lemma event_index: "prefix (bcIndex w) (bcIndex (snd (syncCurationEvent cfg ch event w)))"
  by (simp add: syncCurationEvent_snd handleAddition_index handleReorg_index)

lemma handleAddition_key:
  assumes "handleAddition cfg event w = (Inr d, w')"
  shows "hashId w' Polygon (ev_transactionHash event) = Some (ce_blockchainTransactionId d)"
proof -
  let ?foc = "findOrCreateBlockchainTransaction Polygon (ev_transactionHash event)
                (Some bc_succeeded) w"
  obtain r0 w1 where foc: "?foc = (r0, w1)" by (cases ?foc)
  from assms foc obtain b where b: "r0 = Inr b"
    by (cases r0) (auto simp: handleAddition_def)
  have d: "ce_blockchainTransactionId d = bc_id b"
    using assms foc b
    by (auto simp: handleAddition_def Let_def mirrorData_def
        split: if_splits option.splits prod.splits sum.splits)
  have h1: "hashId w1 Polygon (ev_transactionHash event) = Some (bc_id b)"
    using findOrCreate_hashId foc b by simp
  have "bcIndex w' = bcIndex w1"
    using handleAddition_shape[of cfg event w] foc assms by (auto simp: reconcile_index)
  then have "prefix (bcIndex w1) (bcIndex w')" by simp
  from hashId_stable[OF h1 this] d show ?thesis by simp
qed

lemma syncLoop_keys:
  assumes "syncLoop cfg ch events acc w = (Inr ds, w')"
  shows "\<exists>ds'. ds = acc @ ds' \<and> prefix (bcIndex w) (bcIndex w')
     \<and> (\<forall>e \<in> set events. \<not> ev_removed e \<longrightarrow>
           (\<exists>d \<in> set ds'. hashId w' Polygon (ev_transactionHash e)
                              = Some (ce_blockchainTransactionId d)))
     \<and> (\<forall>d \<in> set ds'. \<exists>e \<in> set events. \<not> ev_removed e
           \<and> hashId w' Polygon (ev_transactionHash e) = Some (ce_blockchainTransactionId d))"
  using assms
proof (induction events arbitrary: acc w)
  case Nil
  then show ?case by simp
next
  case (Cons e es)
  obtain r1 w1 where step: "syncCurationEvent cfg ch e w = (r1, w1)"
    by (cases "syncCurationEvent cfg ch e w")
  with Cons.prems obtain ds1 where r1: "r1 = Inr ds1"
    by (cases r1) auto
  with Cons.prems step have rest: "syncLoop cfg ch es (acc @ ds1) w1 = (Inr ds, w')" by simp
  from Cons.IH[OF rest] obtain ds2 where
    ds2: "ds = (acc @ ds1) @ ds2" "prefix (bcIndex w1) (bcIndex w')"
    and all2: "\<forall>x \<in> set es. \<not> ev_removed x \<longrightarrow>
           (\<exists>d \<in> set ds2. hashId w' Polygon (ev_transactionHash x)
                              = Some (ce_blockchainTransactionId d))"
    and back2: "\<forall>d \<in> set ds2. \<exists>x \<in> set es. \<not> ev_removed x
           \<and> hashId w' Polygon (ev_transactionHash x) = Some (ce_blockchainTransactionId d)"
    by blast
  have p1: "prefix (bcIndex w) (bcIndex w1)"
    using event_index[of w cfg ch e] step by simp
  have pre: "prefix (bcIndex w) (bcIndex w')"
    using p1 ds2(2) by (rule prefix_order.trans)
  have here: "(ev_removed e \<and> ds1 = [])
      \<or> (\<not> ev_removed e \<and> (\<exists>d. ds1 = [d]
            \<and> hashId w' Polygon (ev_transactionHash e) = Some (ce_blockchainTransactionId d)))"
  proof (cases "ev_removed e")
    case True
    with step r1 show ?thesis
      by (auto simp: syncCurationEvent_def split: prod.splits sum.splits)
  next
    case False
    with step r1 obtain d where d: "handleAddition cfg e w = (Inr d, w1)" "ds1 = [d]"
      by (auto simp: syncCurationEvent_def split: prod.splits sum.splits)
    from hashId_stable[OF handleAddition_key[OF d(1)] ds2(2)] d(2) False show ?thesis
      by simp
  qed
  show ?case
  proof (intro exI[of _ "ds1 @ ds2"] conjI)
    show "ds = acc @ ds1 @ ds2" using ds2(1) by simp
    show "prefix (bcIndex w) (bcIndex w')" by (rule pre)
    show "\<forall>x \<in> set (e # es). \<not> ev_removed x \<longrightarrow>
           (\<exists>d \<in> set (ds1 @ ds2). hashId w' Polygon (ev_transactionHash x)
                              = Some (ce_blockchainTransactionId d))"
      using here all2 by auto
    show "\<forall>d \<in> set (ds1 @ ds2). \<exists>x \<in> set (e # es). \<not> ev_removed x
           \<and> hashId w' Polygon (ev_transactionHash x) = Some (ce_blockchainTransactionId d)"
      using here back2 by auto
  qed
qed

lemma upsert_keys:
  "set (map ce_blockchainTransactionId (upsertCurationEvent d rs))
     = insert (ce_blockchainTransactionId d) (set (map ce_blockchainTransactionId rs))"
  by (induction rs) auto

lemma upsert_distinct:
  "distinct (map ce_blockchainTransactionId rs) \<Longrightarrow>
   distinct (map ce_blockchainTransactionId (upsertCurationEvent d rs))"
proof (induction rs)
  case Nil
  then show ?case by simp
next
  case (Cons r rs)
  then show ?case
    using upsert_keys[of d rs] by auto
qed

lemma upsert_length:
  "ce_blockchainTransactionId d \<in> set (map ce_blockchainTransactionId rs) \<Longrightarrow>
   length (upsertCurationEvent d rs) = length rs"
  by (induction rs) auto

lemma fold_upsert_keys:
  "set (map ce_blockchainTransactionId (fold upsertCurationEvent ds rs))
     = set (map ce_blockchainTransactionId ds) \<union> set (map ce_blockchainTransactionId rs)"
proof (induction ds arbitrary: rs)
  case Nil
  then show ?case by simp
next
  case (Cons d ds)
  show ?case
    using Cons.IH[of "upsertCurationEvent d rs"] upsert_keys[of d rs] by auto
qed

lemma fold_upsert_distinct:
  "distinct (map ce_blockchainTransactionId rs) \<Longrightarrow>
   distinct (map ce_blockchainTransactionId (fold upsertCurationEvent ds rs))"
  by (induction ds arbitrary: rs) (simp_all add: upsert_distinct)

lemma fold_upsert_length:
  "set (map ce_blockchainTransactionId ds) \<subseteq> set (map ce_blockchainTransactionId rs) \<Longrightarrow>
   length (fold upsertCurationEvent ds rs) = length rs"
proof (induction ds arbitrary: rs)
  case Nil
  then show ?case by simp
next
  case (Cons d ds)
  from Cons.prems have d: "ce_blockchainTransactionId d \<in> set (map ce_blockchainTransactionId rs)"
    by simp
  from Cons.prems have "set (map ce_blockchainTransactionId ds)
      \<subseteq> set (map ce_blockchainTransactionId (upsertCurationEvent d rs))"
    using upsert_keys[of d rs] by auto
  from Cons.IH[OF this] upsert_length[OF d] show ?case by simp
qed

lemma one_row_per_key:
  "distinct (map ce_blockchainTransactionId rs) \<Longrightarrow>
   k \<in> set (map ce_blockchainTransactionId rs) \<Longrightarrow>
   length (filter (\<lambda>r. ce_blockchainTransactionId r = k) rs) = 1"
proof (induction rs)
  case Nil
  then show ?case by simp
next
  case (Cons r rs)
  show ?case
  proof (cases "ce_blockchainTransactionId r = k")
    case True
    with Cons.prems have "k \<notin> ce_blockchainTransactionId ` set rs" by simp
    then have "\<forall>x \<in> set rs. ce_blockchainTransactionId x \<noteq> k" by blast
    then have "filter (\<lambda>r. ce_blockchainTransactionId r = k) rs = []"
      by (simp add: filter_empty_conv)
    with True show ?thesis by simp
  next
    case False
    with Cons show ?thesis by auto
  qed
qed

lemma mirror_statements:
  "blockchain_curation_events (snd (updateTxAndBlockchainTxState i s r b bs w))
     = blockchain_curation_events w"
  "blockchain_curation_events (snd (findOrCreateBlockchainTransaction c h st w))
     = blockchain_curation_events w"
  "blockchain_curation_events (snd (markTransactionStateAs i s r w))
     = blockchain_curation_events w"
  "blockchain_curation_events (snd (cancelAndReplace tx row bt w))
     = blockchain_curation_events w"
  "blockchain_curation_events (snd (createAndLink row bt w)) = blockchain_curation_events w"
  by (auto simp: updateTxAndBlockchainTxState_def findOrCreateBlockchainTransaction_def
      markTransactionStateAs_def cancelAndReplace_def createAndLink_def
      autocommit_def attempt_cases commit_def rollback_def insertTransaction_def
      insertBlockchainTransaction_def Let_def
      split: prod.splits sum.splits option.splits)

lemma mirror_event:
  "blockchain_curation_events (snd (syncCurationEvent cfg ch event w))
     = blockchain_curation_events w"
proof (cases "ev_removed event")
  case True
  with handleReorg_shape[of ch event w] show ?thesis
    by (auto simp: syncCurationEvent_snd mirror_statements)
next
  case False
  let ?w1 = "snd (findOrCreateBlockchainTransaction Polygon (ev_transactionHash event)
                    (Some bc_succeeded) w)"
  have r: "\<And>b cu cr art d. blockchain_curation_events (snd (reconcile cfg b cu cr art d ?w1))
              = blockchain_curation_events w"
  proof -
    fix b cu cr art d
    from reconcile_shape[of cfg b cu cr art d ?w1]
    show "blockchain_curation_events (snd (reconcile cfg b cu cr art d ?w1))
              = blockchain_curation_events w"
      by (auto simp: mirror_statements)
  qed
  from handleAddition_shape[of cfg event w] False show ?thesis
    by (auto simp: syncCurationEvent_snd mirror_statements r)
qed

lemma mirror_loop:
  "blockchain_curation_events (snd (syncLoop cfg ch events acc w))
     = blockchain_curation_events w"
proof (induction events arbitrary: acc w)
  case Nil
  then show ?case by simp
next
  case (Cons e es)
  show ?case
  proof (cases "syncCurationEvent cfg ch e w")
    case (Pair r w1)
    have w1: "blockchain_curation_events w1 = blockchain_curation_events w"
      using mirror_event[of cfg ch e w] Pair by simp
    show ?thesis
    proof (cases r)
      case (Inl err)
      with Pair w1 show ?thesis by simp
    next
      case (Inr ds)
      with Pair w1 Cons.IH[of "acc @ ds" w1] show ?thesis by simp
    qed
  qed
qed

lemma batchCreate_success:
  assumes "batchCreate ds w = (Inr u, w')"
  shows "blockchain_curation_events w'
           = fold upsertCurationEvent ds (blockchain_curation_events w)"
    and "bcIndex w' = bcIndex w"
proof -
  show "blockchain_curation_events w'
           = fold upsertCurationEvent ds (blockchain_curation_events w)"
    using assms
    by (auto simp: batchCreate_def attempt_cases commit_def batchUpsertCurationEvents_def
        split: if_splits prod.splits sum.splits)
  show "bcIndex w' = bcIndex w"
    using index_statements(5)[of ds w] assms by simp
qed

lemma syncCurationEvents_success:
  assumes "syncCurationEvents cfg ch events w = (Inr n, w')"
  shows "\<exists>ds wl. syncLoop cfg ch events [] w = (Inr ds, wl) \<and> batchCreate ds wl = (Inr (), w')"
  using assms
  by (auto simp: syncCurationEvents_def split: prod.splits sum.splits)

lemma hashId_same_index: "bcIndex w' = bcIndex w \<Longrightarrow> hashId w' c h = hashId w c h"
  by (simp add: hashId_index)

lemma ex_batch_passes:
  "fst (syncCurationEvents exConfig exCatchUpChain exBatch exEmptyStore) = Inr 3"
  "fst (syncCurationEvents exConfig exCatchUpChain exBatch
          (snd (syncCurationEvents exConfig exCatchUpChain exBatch exEmptyStore))) = Inr 3"
  "length (blockchain_curation_events
     (snd (syncCurationEvents exConfig exCatchUpChain exBatch
          (snd (syncCurationEvents exConfig exCatchUpChain exBatch exEmptyStore))))) = 2"
  by code_simp+

subsection \<open>Processing a batch twice\<close>

text \<open>
  Claim C5. After the same batch of events has been processed twice by the event
  synchronizer, the table \<open>blockchain_curation_event\<close> holds exactly one mirrored row for
  the transaction hash of every addition event of the batch, no key occurs twice, and the
  second pass has added no row: it rewrote the rows of the first. (Both passes complete;
  the keys of the table were distinct before.)
\<close>

theorem mirroring_idempotent:
  assumes "distinct (map ce_blockchainTransactionId (blockchain_curation_events w))"
    and "syncCurationEvents cfg ch events w = (Inr n1, w1)"
    and "syncCurationEvents cfg ch' events w1 = (Inr n2, w2)"
  shows "(\<forall>e \<in> set events. \<not> ev_removed e \<longrightarrow>
            length (mirroredRows w2 (ev_transactionHash e)) = 1)
     \<and> distinct (map ce_blockchainTransactionId (blockchain_curation_events w2))
     \<and> length (blockchain_curation_events w2) = length (blockchain_curation_events w1)"
proof -
  let ?key = ce_blockchainTransactionId
  from syncCurationEvents_success[OF assms(2)] obtain ds1 wl1 where
    l1: "syncLoop cfg ch events [] w = (Inr ds1, wl1)" and b1: "batchCreate ds1 wl1 = (Inr (), w1)"
    by blast
  from syncCurationEvents_success[OF assms(3)] obtain ds2 wl2 where
    l2: "syncLoop cfg ch' events [] w1 = (Inr ds2, wl2)" and b2: "batchCreate ds2 wl2 = (Inr (), w2)"
    by blast
  have t0: "blockchain_curation_events wl1 = blockchain_curation_events w"
    using mirror_loop[of cfg ch events "[]" w] l1 by simp
  have t1: "blockchain_curation_events w1 = fold upsertCurationEvent ds1 (blockchain_curation_events w)"
    using batchCreate_success(1)[OF b1] t0 by simp
  have i1: "bcIndex w1 = bcIndex wl1" by (rule batchCreate_success(2)[OF b1])
  have tl2: "blockchain_curation_events wl2 = blockchain_curation_events w1"
    using mirror_loop[of cfg ch' events "[]" w1] l2 by simp
  have t2: "blockchain_curation_events w2 = fold upsertCurationEvent ds2 (blockchain_curation_events w1)"
    using batchCreate_success(1)[OF b2] tl2 by simp
  have i2: "bcIndex w2 = bcIndex wl2" by (rule batchCreate_success(2)[OF b2])
  from syncLoop_keys[OF l1] have all1:
    "\<forall>e \<in> set events. \<not> ev_removed e \<longrightarrow>
       (\<exists>d \<in> set ds1. hashId wl1 Polygon (ev_transactionHash e) = Some (?key d))"
    by auto
  from syncLoop_keys[OF l2] have p2: "prefix (bcIndex w1) (bcIndex wl2)"
    and all2: "\<forall>e \<in> set events. \<not> ev_removed e \<longrightarrow>
       (\<exists>d \<in> set ds2. hashId wl2 Polygon (ev_transactionHash e) = Some (?key d))"
    and back2: "\<forall>d \<in> set ds2. \<exists>e \<in> set events. \<not> ev_removed e
           \<and> hashId wl2 Polygon (ev_transactionHash e) = Some (?key d)"
    by auto
  have d1: "distinct (map ?key (blockchain_curation_events w1))"
    unfolding t1 using assms(1) by (rule fold_upsert_distinct)
  have d2: "distinct (map ?key (blockchain_curation_events w2))"
    unfolding t2 using d1 by (rule fold_upsert_distinct)
  have sub: "set (map ?key ds2) \<subseteq> set (map ?key (blockchain_curation_events w1))"
  proof
    fix k assume "k \<in> set (map ?key ds2)"
    then obtain d where d: "d \<in> set ds2" "k = ?key d" by auto
    with back2 obtain e where e: "e \<in> set events" "\<not> ev_removed e"
      "hashId wl2 Polygon (ev_transactionHash e) = Some k"
      by blast
    with all1 obtain d' where d': "d' \<in> set ds1"
      "hashId wl1 Polygon (ev_transactionHash e) = Some (?key d')"
      by blast
    then have "hashId w1 Polygon (ev_transactionHash e) = Some (?key d')"
      using hashId_same_index[OF i1] by simp
    from hashId_stable[OF this p2] e(3) have "k = ?key d'" by simp
    with d'(1) show "k \<in> set (map ?key (blockchain_curation_events w1))"
      unfolding t1 fold_upsert_keys by auto
  qed
  have len: "length (blockchain_curation_events w2) = length (blockchain_curation_events w1)"
    unfolding t2 using sub by (rule fold_upsert_length)
  have one: "\<forall>e \<in> set events. \<not> ev_removed e \<longrightarrow>
            length (mirroredRows w2 (ev_transactionHash e)) = 1"
  proof (intro ballI impI)
    fix e assume e: "e \<in> set events" "\<not> ev_removed e"
    with all2 obtain d where d: "d \<in> set ds2"
      "hashId wl2 Polygon (ev_transactionHash e) = Some (?key d)"
      by blast
    then have "hashId w2 Polygon (ev_transactionHash e) = Some (?key d)"
      using hashId_same_index[OF i2] by simp
    then obtain b where b: "findBlockchainTransaction Polygon (ev_transactionHash e) w2 = Some b"
      "bc_id b = ?key d"
      by (auto simp: hashId_def)
    have "?key d \<in> set (map ?key (blockchain_curation_events w2))"
      unfolding t2 fold_upsert_keys using d(1) by auto
    from one_row_per_key[OF d2 this] b
    show "length (mirroredRows w2 (ev_transactionHash e)) = 1"
      by (simp add: mirroredRows_def)
  qed
  from one d2 len show ?thesis by blast
qed

theorem mirroring_idempotent_witness:
  "(let w1 = snd (syncCurationEvents exConfig exCatchUpChain exBatch exEmptyStore);
        w2 = snd (syncCurationEvents exConfig exCatchUpChain exBatch w1)
    in length (mirroredRows w2 ''0xb1'') = 1 \<and> length (mirroredRows w2 ''0xb2'') = 1
       \<and> length (blockchain_curation_events w2) = 2
       \<and> length (blockchain_curation_events w1) = 2)"
proof -
  let ?w1 = "snd (syncCurationEvents exConfig exCatchUpChain exBatch exEmptyStore)"
  let ?w2 = "snd (syncCurationEvents exConfig exCatchUpChain exBatch ?w1)"
  have h1: "distinct (map ce_blockchainTransactionId (blockchain_curation_events exEmptyStore))"
    by (simp add: exEmptyStore_def)
  have h2: "syncCurationEvents exConfig exCatchUpChain exBatch exEmptyStore = (Inr 3, ?w1)"
    using ex_batch_passes(1) by (simp add: prod_eq_iff)
  have h3: "syncCurationEvents exConfig exCatchUpChain exBatch ?w1 = (Inr 3, ?w2)"
    using ex_batch_passes(2) by (simp add: prod_eq_iff)
  have ev: "set exBatch = {exForeignEvent ''0xb1'' 500, exForeignEvent ''0xb2'' 990,
                           exForeignEvent ''0xb1'' 990}"
    by (simp add: exBatch_def)
  from mirroring_idempotent[OF h1 h2 h3] ex_batch_passes(3) show ?thesis
    by (simp add: Let_def ev exForeignEvent_def)
qed

section \<open>Superseding a stale ledger transaction\<close>



section \<open>Which pay-to attempts are retried\<close>



section \<open>Pay-to verification of a receipt without a matching log\<close>



section \<open>Pay-to verification without a stored wallet address\<close>

text \<open>
  Claim C10. In a pay-to verification attempt whose receipt is mined with status 1, when
  the stored wallet address of the sender or of the recipient is absent, the log-matching
  predicate is false for every list of receipt logs, and the attempt completes with the
  ledger transaction canceled (remark \<open>invalid\<close>) and the blockchain transaction succeeded:
  it is not retried and does not reach succeeded/succeeded. (The store does not fail and
  the rows the attempt reads exist.)
\<close>

theorem absent_wallet_settles_canceled:
  assumes "faults w = []"
    and "baseFindById txId w = Some tx" and "tx_provider tx = blockchain"
    and "findBlockchainTransactionById (tx_providerTxId tx) w = Some b"
    and "getTransactionReceipt ch (bc_txHash b) = Some rc" and "rc_status rc = 1"
    and "userFindById (tx_recipientId tx) w = Some recipient"
    and "userFindById (tx_senderId tx) w = Some sender"
    and "articleFindFirst (tx_targetId tx) w = Some articleDb"
    and "absent (user_ethAddress sender) \<or> absent (user_ethAddress recipient)"
  shows "(\<forall>logs cid tok am dec.
            containMatchedEvent cfg logs (user_ethAddress sender) (user_ethAddress recipient)
              cid tok am dec = Inr False)
         \<and> (\<exists>w'. handlePayTo cfg ch txId w = (Completed, w')
               \<and> ledgerState w' txId = Some canceled
               \<and> ledgerRemark w' txId = Some INVALID
               \<and> chainState w' (bc_id b) = Some bc_succeeded)"
proof -
  have nomatch: "\<And>logs cid tok am dec.
      containMatchedEvent cfg logs (user_ethAddress sender) (user_ethAddress recipient)
        cid tok am dec = Inr False"
    using assms(10) by (rule absent_no_match)
  have idt: "tx_id tx = txId"
    using find_Some_P[of "\<lambda>t. tx_id t = txId" "transactions w" tx] assms(2)
    by (simp add: baseFindById_def)
  have idb: "bc_id b = tx_providerTxId tx"
    using find_Some_P[of "\<lambda>x. bc_id x = tx_providerTxId tx" "blockchain_transactions w" b] assms(4)
    by (simp add: findBlockchainTransactionById_def)
  let ?w' = "pairWritten txId canceled (Some INVALID) (bc_id b) bc_succeeded w"
  have run: "handlePayTo cfg ch txId w = (Completed, ?w')"
    using assms(1-9) nomatch
    by (simp add: handlePayTo_def settled_def helper_no_faults)
  have "ledgerState ?w' txId = Some canceled" "ledgerRemark ?w' txId = Some INVALID"
    using assms(2) idt by (simp_all add: ledgerState_def ledgerRemark_def pairWritten_obs)
  moreover have "chainState ?w' (bc_id b) = Some bc_succeeded"
    using assms(4) idb by (simp add: chainState_def pairWritten_obs)
  ultimately show ?thesis using run nomatch by blast
qed

theorem absent_wallet_settles_canceled_witness:
  "\<exists>w'. handlePayTo exConfig (exChain (Some (exReceipt 1 10000000))) 7
            (exStore pending bc_pending exRecipientNoWallet) = (Completed, w')
        \<and> ledgerState w' 7 = Some canceled
        \<and> ledgerRemark w' 7 = Some INVALID
        \<and> chainState w' 3 = Some bc_succeeded"
proof -
  let ?w = "exStore pending bc_pending exRecipientNoWallet"
  let ?ch = "exChain (Some (exReceipt 1 10000000))"
  have h4: "findBlockchainTransactionById (tx_providerTxId (exTx pending)) ?w
              = Some (exBlockchainTx bc_pending)"
    by (simp add: ex_fields ex_lookups)
  have h5: "getTransactionReceipt ?ch (bc_txHash (exBlockchainTx bc_pending))
              = Some (exReceipt 1 10000000)"
    by (simp add: ex_fields)
  have h7: "userFindById (tx_recipientId (exTx pending)) ?w = Some exRecipientNoWallet"
    by (simp add: ex_fields ex_recipient)
  have h8: "userFindById (tx_senderId (exTx pending)) ?w = Some exSender"
    by (simp add: ex_fields ex_lookups)
  have h9: "articleFindFirst (tx_targetId (exTx pending)) ?w = Some exArticle"
    by (simp add: ex_fields ex_lookups)
  have h10: "absent (user_ethAddress exSender) \<or> absent (user_ethAddress exRecipientNoWallet)"
    by (simp add: absent_def exRecipientNoWallet_def)
  from absent_wallet_settles_canceled[OF ex_lookups(1) ex_lookups(2) ex_fields(1) h4 h5
      ex_fields(20) h7 h8 h9 h10, of exConfig]
  show ?thesis by (simp add: ex_fields)
qed

end
